theory Spec2Isabelle
  imports Main "HOL-Library.List_Lexorder" "HOL-Library.Product_Lexorder" "HOL-Library.Multiset"
begin

section \<open>Values of the input document\<close>

text \<open>
  A Python \<open>str\<close> is a sequence of Unicode code points, compared lexicographically by
  code point. It is modelled as a list of natural numbers with the lexicographic order
  on lists; \<open>lit\<close> turns an ASCII literal into its code points.
\<close>

type_synonym pystr = "nat list"

definition lit :: "string \<Rightarrow> pystr" where
  "lit s = map of_char s"

text \<open>
  The objects that \<open>yaml.safe_load\<close> builds: null, booleans, integers, strings,
  sequences and mappings. A mapping is an association list in insertion order, as a
  Python \<open>dict\<close> iterates. Floats, timestamps, binary scalars and sets are outside the
  model.
\<close>

datatype yaml =
    YNull
  | YBool bool
  | YInt int
  | YStr pystr
  | YSeq "yaml list"
  | YMap "(yaml \<times> yaml) list"

datatype error = TypeError | AttributeError | ValueError | KeyError | LoadError

text \<open>
  The builtins of Python and PyYAML whose full behaviour lies outside the repository are
  parameters of the model: \<open>str.upper\<close> (Unicode case mapping), the text Python prints
  for a sequence or a mapping (\<open>repr\<close>), and \<open>yaml.safe_load\<close>, which returns an object or
  raises (\<open>None\<close>).
\<close>

record builtins =
  upper :: "pystr \<Rightarrow> pystr"
  repr :: "yaml \<Rightarrow> pystr"
  safe_load :: "pystr \<Rightarrow> yaml option"

text \<open>\<open>bool(val)\<close>: the truth value of an object.\<close>

fun truthy :: "yaml \<Rightarrow> bool" where
  "truthy YNull = False"
| "truthy (YBool b) = b"
| "truthy (YInt i) = (i \<noteq> 0)"
| "truthy (YStr s) = (s \<noteq> [])"
| "truthy (YSeq xs) = (xs \<noteq> [])"
| "truthy (YMap m) = (m \<noteq> [])"

text \<open>\<open>a or b\<close> returns \<open>a\<close> when it is true and \<open>b\<close> otherwise.\<close>

definition py_or :: "yaml \<Rightarrow> yaml \<Rightarrow> yaml" where
  "py_or a b = (if truthy a then a else b)"

fun dec_nat :: "nat \<Rightarrow> pystr" where
  "dec_nat n = (if n < 10 then [48 + n] else dec_nat (n div 10) @ [48 + n mod 10])"

declare dec_nat.simps [simp del]

definition dec_int :: "int \<Rightarrow> pystr" where
  "dec_int i = (if i < 0 then 45 # dec_nat (nat (- i)) else dec_nat (nat i))"

text \<open>\<open>str(v)\<close>, also what an f-string inserts for \<open>{v}\<close>.\<close>

fun py_str :: "builtins \<Rightarrow> yaml \<Rightarrow> pystr" where
  "py_str L (YStr s) = s"
| "py_str L YNull = lit ''None''"
| "py_str L (YBool b) = (if b then lit ''True'' else lit ''False'')"
| "py_str L (YInt i) = dec_int i"
| "py_str L v = repr L v"

text \<open>\<open>sep.join(parts)\<close>.\<close>

fun join :: "pystr \<Rightarrow> pystr list \<Rightarrow> pystr" where
  "join sep [] = []"
| "join sep [x] = x"
| "join sep (x # y # ys) = x @ sep @ join sep (y # ys)"

text \<open>\<open>d.get(key, default)\<close> for a string key.\<close>

definition dict_get :: "(yaml \<times> yaml) list \<Rightarrow> pystr \<Rightarrow> yaml \<Rightarrow> yaml" where
  "dict_get d k dflt = (case map_of d (YStr k) of None \<Rightarrow> dflt | Some v \<Rightarrow> v)"

definition bool_to_yesno :: "bool \<Rightarrow> pystr" where
  "bool_to_yesno val = (if val then lit ''Yes'' else lit ''No'')"

section \<open>The sanitizer\<close>

definition BACKTICK :: nat where
  "BACKTICK = 96"

definition PRIME :: nat where
  "PRIME = 8242"

text \<open>
  \<open>value.replace\<close> with the backtick as pattern and U+2032 as replacement replaces every
  occurrence of the one-character pattern. The argument is a string or null
  (\<open>None\<close>); a caller that passes any other object gets \<open>AttributeError\<close>, which
  \<open>str_arg\<close> models at the call.
\<close>

definition replace_backtick :: "pystr \<Rightarrow> pystr" where
  "replace_backtick s = map (\<lambda>c. if c = BACKTICK then PRIME else c) s"

fun sanitize_code_span :: "pystr option \<Rightarrow> pystr" where
  "sanitize_code_span None = []"
| "sanitize_code_span (Some v) = replace_backtick v"

fun str_arg :: "yaml \<Rightarrow> error + pystr option" where
  "str_arg YNull = Inr None"
| "str_arg (YStr s) = Inr (Some s)"
| "str_arg _ = Inl AttributeError"

fun non_null_parts :: "builtins \<Rightarrow> yaml list \<Rightarrow> pystr list" where
  "non_null_parts L [] = []"
| "non_null_parts L (p # ps) =
     (if p = YNull then non_null_parts L ps
      else sanitize_code_span (Some (py_str L p)) # non_null_parts L ps)"

fun normalize_locations :: "builtins \<Rightarrow> yaml \<Rightarrow> pystr option" where
  "normalize_locations L YNull = None"
| "normalize_locations L (YStr s) = Some (sanitize_code_span (Some s))"
| "normalize_locations L (YSeq ps) =
     (let parts = non_null_parts L ps
      in if parts \<noteq> [] then Some (join (lit '', '') parts) else None)"
| "normalize_locations L loc = Some (sanitize_code_span (Some (py_str L loc)))"

section \<open>Sort keys\<close>

definition METHOD_ORDER :: "pystr list" where
  "METHOD_ORDER = [lit ''GET'', lit ''POST'', lit ''PUT'', lit ''DELETE'', lit ''PATCH'',
     lit ''HEAD'', lit ''OPTIONS'']"

text \<open>\<open>xs.index(x)\<close>, called only when \<open>x\<close> is in \<open>xs\<close>.\<close>

fun index_of :: "'a \<Rightarrow> 'a list \<Rightarrow> nat" where
  "index_of x [] = 0"
| "index_of x (y # ys) = (if x = y then 0 else Suc (index_of x ys))"

definition method_sort_key :: "builtins \<Rightarrow> pystr \<Rightarrow> nat \<times> pystr" where
  "method_sort_key L method =
     (let m = upper L method
      in if m \<in> set METHOD_ORDER then (index_of m METHOD_ORDER, [])
         else (length METHOD_ORDER, m))"

section \<open>Normalizer and grouper\<close>

record row =
  path :: yaml
  "method" :: pystr
  region_aware :: bool
  absolute :: bool
  owner :: yaml
  endpoint_name :: yaml
  backend_class :: yaml
  locations :: "pystr option"
  "notes" :: yaml

datatype diagnostic =
    SkipPath yaml
  | SkipMethod yaml pystr
  | ReadFailed
  | ParseFailed
  | WriteFailed

text \<open>
  The dictionary \<open>sections\<close>, in insertion order. Keys are compared as Python compares
  dictionary keys: \<open>True\<close> and \<open>1\<close> are the same key, and the key first inserted stays.
  A sequence or a mapping is unhashable, and using one as a key raises \<open>TypeError\<close>.
\<close>

type_synonym sections = "(yaml \<times> row list) list"

fun num_of :: "yaml \<Rightarrow> int option" where
  "num_of (YBool b) = Some (if b then 1 else 0)"
| "num_of (YInt i) = Some i"
| "num_of _ = None"

definition py_eq :: "yaml \<Rightarrow> yaml \<Rightarrow> bool" where
  "py_eq a b = (case (num_of a, num_of b) of (Some x, Some y) \<Rightarrow> x = y | _ \<Rightarrow> a = b)"

fun hashable :: "yaml \<Rightarrow> bool" where
  "hashable (YSeq xs) = False"
| "hashable (YMap m) = False"
| "hashable _ = True"

fun dict_append :: "yaml \<Rightarrow> row \<Rightarrow> sections \<Rightarrow> sections" where
  "dict_append k r [] = [(k, [r])]"
| "dict_append k r ((k', rs) # d) =
     (if py_eq k' k then (k', rs @ [r]) # d else (k', rs) # dict_append k r d)"

text \<open>\<open>sections.setdefault(section_name, []).append(row)\<close>.\<close>

definition setdefault_append :: "yaml \<Rightarrow> row \<Rightarrow> sections \<Rightarrow> error + sections" where
  "setdefault_append k r d = (if hashable k then Inr (dict_append k r d) else Inl TypeError)"

text \<open>The values a path's metadata resolves to (lines 83 to 99 of the source).\<close>

definition resolve_section :: "yaml \<Rightarrow> yaml" where
  "resolve_section meta =
     (let endpoint_section = (case meta of YMap m \<Rightarrow> dict_get m (lit ''section'') YNull | _ \<Rightarrow> YNull)
      in py_or endpoint_section (YStr (lit ''Uncategorized'')))"

definition resolve_absolute :: "yaml \<Rightarrow> bool" where
  "resolve_absolute meta =
     (case meta of YMap m \<Rightarrow> truthy (dict_get m (lit ''absolute'') (YBool False)) | _ \<Rightarrow> False)"

definition resolve_field :: "string \<Rightarrow> yaml \<Rightarrow> yaml" where
  "resolve_field key meta = (case meta of YMap m \<Rightarrow> dict_get m (lit key) YNull | _ \<Rightarrow> YNull)"

definition resolve_methods :: "yaml \<Rightarrow> yaml" where
  "resolve_methods meta =
     (case meta of YMap m \<Rightarrow> py_or (dict_get m (lit ''methods'') YNull) (YMap []) | _ \<Rightarrow> YMap [])"

definition make_row :: "builtins \<Rightarrow> yaml \<Rightarrow> yaml \<Rightarrow> pystr \<Rightarrow> (yaml \<times> yaml) list \<Rightarrow> row" where
  "make_row L pth meta mth method_meta =
     \<lparr> path = pth,
       method = mth,
       region_aware = truthy (dict_get method_meta (lit ''region_aware'') (YBool False)),
       absolute = resolve_absolute meta,
       owner = resolve_field ''owner'' meta,
       endpoint_name = resolve_field ''name'' meta,
       backend_class = resolve_field ''class'' meta,
       locations = normalize_locations L (dict_get method_meta (lit ''locations'') YNull),
       notes = py_or (dict_get method_meta (lit ''notes'') YNull) (YStr []) \<rparr>"

text \<open>
  The inner loop over \<open>methods.items()\<close>. The state is the dictionary of sections and
  the diagnostics printed to stderr so far.
\<close>

type_synonym state = "sections \<times> diagnostic list"

fun methods_loop :: "builtins \<Rightarrow> yaml \<Rightarrow> yaml \<Rightarrow> (yaml \<times> yaml) list \<Rightarrow> state \<Rightarrow> error + state" where
  "methods_loop L pth meta [] st = Inr st"
| "methods_loop L pth meta ((method_raw, method_meta) # rest) (secs, diags) =
     (if method_raw = YNull then methods_loop L pth meta rest (secs, diags)
      else
        (case method_meta of
           YMap mm \<Rightarrow>
             (case setdefault_append (resolve_section meta)
                     (make_row L pth meta (upper L (py_str L method_raw)) mm) secs of
                Inl e \<Rightarrow> Inl e
              | Inr secs' \<Rightarrow> methods_loop L pth meta rest (secs', diags))
         | _ \<Rightarrow>
             methods_loop L pth meta rest
               (secs, diags @ [SkipMethod pth (upper L (py_str L method_raw))])))"

text \<open>The outer loop over \<open>yaml_map.items()\<close>.\<close>

fun paths_loop :: "builtins \<Rightarrow> (yaml \<times> yaml) list \<Rightarrow> state \<Rightarrow> error + state" where
  "paths_loop L [] st = Inr st"
| "paths_loop L ((pth, meta) # rest) (secs, diags) =
     (case resolve_methods meta of
        YMap ms \<Rightarrow>
          (case methods_loop L pth meta ms (secs, diags) of
             Inl e \<Rightarrow> Inl e
           | Inr st' \<Rightarrow> paths_loop L rest st')
      | _ \<Rightarrow> paths_loop L rest (secs, diags @ [SkipPath pth]))"

definition build_rows :: "builtins \<Rightarrow> (yaml \<times> yaml) list \<Rightarrow> error + state" where
  "build_rows L yaml_map = paths_loop L yaml_map ([], [])"

definition parse_yaml :: "builtins \<Rightarrow> pystr \<Rightarrow> error + (yaml \<times> yaml) list" where
  "parse_yaml L stream =
     (case safe_load L stream of
        None \<Rightarrow> Inl LoadError
      | Some (YMap m) \<Rightarrow> Inr m
      | Some _ \<Rightarrow> Inl ValueError)"

section \<open>Table renderer\<close>

text \<open>
  \<open>sorted\<close> compares the keys with \<open><\<close>. Strings compare by code point, booleans and
  integers compare as numbers, and any other pair of different paths raises
  \<open>TypeError\<close>; rows with the same path are ordered by the second component of the key.
  A comparison sort of two or more rows compares across every split of the rows into
  two groups, so it raises exactly when the paths are not all strings, all numbers or
  all null. Paths are keys of the document mapping, hence never sequences or mappings.
  The sort is stable, as \<open>sort_key\<close> is.
\<close>

fun is_str :: "yaml \<Rightarrow> bool" where
  "is_str (YStr s) = True"
| "is_str _ = False"

fun is_num :: "yaml \<Rightarrow> bool" where
  "is_num (YBool b) = True"
| "is_num (YInt i) = True"
| "is_num _ = False"

fun order_key :: "yaml \<Rightarrow> int \<times> pystr" where
  "order_key (YStr s) = (0, s)"
| "order_key (YBool b) = (if b then 1 else 0, [])"
| "order_key (YInt i) = (i, [])"
| "order_key _ = (0, [])"

definition row_key :: "builtins \<Rightarrow> row \<Rightarrow> (int \<times> pystr) \<times> (nat \<times> pystr)" where
  "row_key L r = (order_key (path r), method_sort_key L (method r))"

definition py_sorted_rows :: "builtins \<Rightarrow> row list \<Rightarrow> error + row list" where
  "py_sorted_rows L rows =
     (if length rows \<le> 1
         \<or> list_all (\<lambda>r. is_str (path r)) rows
         \<or> list_all (\<lambda>r. is_num (path r)) rows
         \<or> list_all (\<lambda>r. path r = YNull) rows
      then Inr (sort_key (row_key L) rows)
      else Inl TypeError)"

definition HEADER_ROW :: pystr where
  "HEADER_ROW = lit ''| Path | Method | Region-aware | Absolute | Owner | Endpoint Name | Class (in backend) | Locations used (in CLI) | Notes |''"

definition DELIMITER_ROW :: pystr where
  "DELIMITER_ROW = lit ''| ---- | ------ | ------------ | -------- | ----- | ------------- | ------------------- | ----------------------- | ----- |''"

definition code_span :: "pystr \<Rightarrow> pystr" where
  "code_span s = [BACKTICK] @ s @ [BACKTICK]"

text \<open>The cell of \<open>owner\<close>, \<open>endpoint_name\<close> and \<open>backend_class\<close>.\<close>

definition optional_cell :: "yaml \<Rightarrow> error + pystr" where
  "optional_cell v =
     (if truthy v
      then (case str_arg v of Inl e \<Rightarrow> Inl e | Inr a \<Rightarrow> Inr (code_span (sanitize_code_span a)))
      else Inr [])"

definition locations_cell :: "pystr option \<Rightarrow> pystr" where
  "locations_cell locations_raw =
     (case locations_raw of
        None \<Rightarrow> []
      | Some s \<Rightarrow> if s \<noteq> [] then code_span s else [])"

text \<open>The f-string of a data row: the nine cells between \<open>| \<close>, \<open> | \<close> and \<open> |\<close>.\<close>

definition table_line :: "pystr list \<Rightarrow> pystr" where
  "table_line cells = lit ''| '' @ join (lit '' | '') cells @ lit '' |''"

definition render_row :: "builtins \<Rightarrow> row \<Rightarrow> error + pystr" where
  "render_row L r =
     (case str_arg (path r) of
        Inl e \<Rightarrow> Inl e
      | Inr p \<Rightarrow>
     (case optional_cell (owner r) of
        Inl e \<Rightarrow> Inl e
      | Inr owner_cell \<Rightarrow>
     (case optional_cell (endpoint_name r) of
        Inl e \<Rightarrow> Inl e
      | Inr endpoint_cell \<Rightarrow>
     (case optional_cell (backend_class r) of
        Inl e \<Rightarrow> Inl e
      | Inr class_cell \<Rightarrow>
          Inr (table_line
            [code_span (sanitize_code_span p),
             code_span (sanitize_code_span (Some (method r))),
             bool_to_yesno (region_aware r),
             bool_to_yesno (absolute r),
             owner_cell,
             endpoint_cell,
             class_cell,
             locations_cell (locations r),
             py_str L (py_or (notes r) (YStr []))])))))"

fun render_rows :: "builtins \<Rightarrow> row list \<Rightarrow> error + pystr list" where
  "render_rows L [] = Inr []"
| "render_rows L (r # rs) =
     (case render_row L r of
        Inl e \<Rightarrow> Inl e
      | Inr line \<Rightarrow>
          (case render_rows L rs of
             Inl e \<Rightarrow> Inl e
           | Inr ls \<Rightarrow> Inr (line # ls)))"

definition NEWLINE :: pystr where
  "NEWLINE = [10]"

definition render_section :: "builtins \<Rightarrow> yaml \<Rightarrow> row list \<Rightarrow> error + pystr" where
  "render_section L section rows =
     (case py_sorted_rows L rows of
        Inl e \<Rightarrow> Inl e
      | Inr rows_sorted \<Rightarrow>
          (case render_rows L rows_sorted of
             Inl e \<Rightarrow> Inl e
           | Inr data \<Rightarrow>
               Inr (join NEWLINE
                 ([lit ''### '' @ py_str L section, [], HEADER_ROW, DELIMITER_ROW] @ data))))"

section \<open>Pipeline driver\<close>

text \<open>
  \<open>sorted(section_names)\<close>: the names are keys of a dictionary, so they are hashable and
  pairwise different; two or more of them sort when they are all strings or all
  numbers, and raise \<open>TypeError\<close> otherwise.
\<close>

definition py_sorted_names :: "yaml list \<Rightarrow> error + yaml list" where
  "py_sorted_names names =
     (if length names \<le> 1 \<or> list_all is_str names \<or> list_all is_num names
      then Inr (sort_key order_key names)
      else Inl TypeError)"

definition section_order :: "bool \<Rightarrow> sections \<Rightarrow> error + yaml list" where
  "section_order no_sort secs =
     (let section_names = map fst secs
      in if \<not> no_sort then py_sorted_names section_names else Inr section_names)"

text \<open>\<open>sections[sec]\<close>.\<close>

fun dict_lookup :: "yaml \<Rightarrow> sections \<Rightarrow> error + row list" where
  "dict_lookup k [] = Inl KeyError"
| "dict_lookup k ((k', rs) # d) = (if py_eq k' k then Inr rs else dict_lookup k d)"

fun out_parts_loop :: "builtins \<Rightarrow> sections \<Rightarrow> yaml list \<Rightarrow> bool \<Rightarrow> error + pystr list" where
  "out_parts_loop L secs [] first = Inr []"
| "out_parts_loop L secs (sec # rest) first =
     (case dict_lookup sec secs of
        Inl e \<Rightarrow> Inl e
      | Inr rows \<Rightarrow>
     (case render_section L sec rows of
        Inl e \<Rightarrow> Inl e
      | Inr sec_md \<Rightarrow>
     (case out_parts_loop L secs rest False of
        Inl e \<Rightarrow> Inl e
      | Inr parts \<Rightarrow> Inr ((if \<not> first then [[]] else []) @ [sec_md] @ parts))))"

text \<open>
  The text that \<open>main\<close> hands to the output, from the sections built: an uncaught
  exception (\<open>Inl\<close>) or the document.
\<close>

definition output_text :: "builtins \<Rightarrow> bool \<Rightarrow> sections \<Rightarrow> error + pystr" where
  "output_text L no_sort secs =
     (case section_order no_sort secs of
        Inl e \<Rightarrow> Inl e
      | Inr section_names \<Rightarrow>
          (case out_parts_loop L secs section_names True of
             Inl e \<Rightarrow> Inl e
           | Inr out_parts \<Rightarrow> Inr (join (NEWLINE @ NEWLINE) out_parts @ NEWLINE)))"

text \<open>
  The environment of a run: what reading the input gives (\<open>None\<close> when it raises) and
  whether writing the output succeeds. The outcome of a run that returns: the exit
  status, the text written to the destination (\<open>None\<close> when nothing was written) and
  the lines printed to stderr. An uncaught exception is \<open>Inl\<close>.
\<close>

record env =
  input_text :: "pystr option"
  write_ok :: bool

record outcome =
  status :: int
  written :: "pystr option"
  stderr :: "diagnostic list"

text \<open>Lines 217 to 245 of \<open>main\<close>: from the parsed document to the exit status.\<close>

definition convert :: "builtins \<Rightarrow> env \<Rightarrow> bool \<Rightarrow> (yaml \<times> yaml) list \<Rightarrow> error + outcome" where
  "convert L E no_sort yaml_map =
     (case build_rows L yaml_map of
        Inl e \<Rightarrow> Inl e
      | Inr (secs, diags) \<Rightarrow>
     (case output_text L no_sort secs of
        Inl e \<Rightarrow> Inl e
      | Inr text \<Rightarrow>
          if write_ok E
          then Inr \<lparr> status = 0, written = Some text, stderr = diags \<rparr>
          else Inr \<lparr> status = 4, written = None, stderr = diags @ [WriteFailed] \<rparr>))"

definition main :: "builtins \<Rightarrow> env \<Rightarrow> bool \<Rightarrow> error + outcome" where
  "main L E no_sort =
     (case input_text E of
        None \<Rightarrow> Inr \<lparr> status = 2, written = None, stderr = [ReadFailed] \<rparr>
      | Some stream \<Rightarrow>
     (case parse_yaml L stream of
        Inl exc \<Rightarrow> Inr \<lparr> status = 3, written = None, stderr = [ParseFailed] \<rparr>
      | Inr yaml_map \<Rightarrow> convert L E no_sort yaml_map))"

text \<open>
  A concrete choice of the builtins for evaluating examples: \<open>upper\<close> on ASCII letters,
  as Python's \<open>upper\<close> acts on ASCII strings, a placeholder text for sequences and
  mappings, and a loader that knows no document.
\<close>

definition ascii_upper :: "pystr \<Rightarrow> pystr" where
  "ascii_upper s = map (\<lambda>c. if 97 \<le> c \<and> c \<le> 122 then c - 32 else c) s"

definition ascii_builtins :: "(pystr \<Rightarrow> yaml option) \<Rightarrow> builtins" where
  "ascii_builtins load = \<lparr> upper = ascii_upper, repr = (\<lambda>v. []), safe_load = load \<rparr>"

text \<open>An environment in which reading gives the empty text and writing succeeds.\<close>

definition plain_env :: env where
  "plain_env = \<lparr> input_text = Some [], write_ok = True \<rparr>"

section \<open>Auxiliary definitions\<close>

text \<open>Prefixing the diagnostics of a result of the loops.\<close>

definition add_diags :: "diagnostic list \<Rightarrow> error + state \<Rightarrow> error + state" where
  "add_diags d r = (case r of Inl e \<Rightarrow> Inl e | Inr (secs, d') \<Rightarrow> Inr (secs, d @ d'))"

text \<open>Example documents and the rows and tables they give.\<close>

definition get_only :: yaml where
  "get_only = YMap [(YStr (lit ''get''), YMap [])]"

definition two_sections_doc :: "(yaml \<times> yaml) list" where
  "two_sections_doc =
     [(YStr (lit ''/a''), YMap [(YStr (lit ''section''), YStr (lit ''A'')), (YStr (lit ''methods''), get_only)]),
      (YStr (lit ''/b''), YMap [(YStr (lit ''section''), YStr (lit ''B'')), (YStr (lit ''methods''), get_only)])]"

definition example_row :: "pystr \<Rightarrow> row" where
  "example_row p = \<lparr> path = YStr p, method = lit ''GET'', region_aware = False, absolute = False,
     owner = YNull, endpoint_name = YNull, backend_class = YNull, locations = None, notes = YStr [] \<rparr>"

definition example_section :: "pystr \<Rightarrow> pystr \<Rightarrow> pystr" where
  "example_section s p =
     lit ''### '' @ s @ [10, 10] @ HEADER_ROW @ [10] @ DELIMITER_ROW @ [10]
       @ table_line [code_span p, code_span (lit ''GET''), lit ''No'', lit ''No'', [], [], [], [], []]"

definition string_methods_doc :: "pystr \<Rightarrow> (yaml \<times> yaml) list" where
  "string_methods_doc s = [(YStr (lit ''/a''), YMap [(YStr (lit ''methods''), YStr s)])]"

text \<open>
  The row order as the specification words it: the path decides, by code points; for equal
  paths a method in the priority list comes before one outside it, two listed methods
  follow the list, and two unlisted methods are compared as strings. Methods are compared
  in upper case, the form in which the normalizer stores them.
\<close>

fun the_str :: "yaml \<Rightarrow> pystr" where
  "the_str (YStr s) = s"
| "the_str _ = []"

definition method_before :: "builtins \<Rightarrow> pystr \<Rightarrow> pystr \<Rightarrow> bool" where
  "method_before L m1 m2 =
     (let u1 = upper L m1; u2 = upper L m2
      in if u1 \<in> set METHOD_ORDER
         then (if u2 \<in> set METHOD_ORDER
               then index_of u1 METHOD_ORDER < index_of u2 METHOD_ORDER
               else True)
         else (if u2 \<in> set METHOD_ORDER then False else u1 < u2))"

definition row_before :: "builtins \<Rightarrow> row \<Rightarrow> row \<Rightarrow> bool" where
  "row_before L a b =
     (the_str (path a) < the_str (path b)
      \<or> (the_str (path a) = the_str (path b) \<and> method_before L (method a) (method b)))"

definition sort_example_rows :: "row list" where
  "sort_example_rows =
     [example_row (lit ''/b''),
      (example_row (lit ''/a'')) \<lparr> method := lit ''ZAP'' \<rparr>,
      (example_row (lit ''/a'')) \<lparr> method := lit ''post'' \<rparr>,
      (example_row (lit ''/a'')) \<lparr> method := lit ''ABC'' \<rparr>,
      (example_row (lit ''/a'')) \<lparr> method := lit ''get'' \<rparr>,
      example_row (lit ''/a'')]"

subsection \<open>The table format in the words of the documentation\<close>

definition COLUMN_LABELS :: "pystr list" where
  "COLUMN_LABELS = [lit ''Path'', lit ''Method'', lit ''Region-aware'', lit ''Absolute'',
     lit ''Owner'', lit ''Endpoint Name'', lit ''Class (in backend)'',
     lit ''Locations used (in CLI)'', lit ''Notes'']"

fun str_or_null :: "yaml \<Rightarrow> bool" where
  "str_or_null YNull = True"
| "str_or_null (YStr s) = True"
| "str_or_null _ = False"

definition typed_row :: "row \<Rightarrow> bool" where
  "typed_row r \<longleftrightarrow>
     is_str (path r) \<and> str_or_null (owner r) \<and> str_or_null (endpoint_name r)
     \<and> str_or_null (backend_class r) \<and> str_or_null (notes r)"

definition wrapped_if_nonempty :: "yaml \<Rightarrow> pystr" where
  "wrapped_if_nonempty v =
     (if the_str v = [] then [] else [BACKTICK] @ replace_backtick (the_str v) @ [BACKTICK])"

definition data_cells :: "row \<Rightarrow> pystr list" where
  "data_cells r =
     [[BACKTICK] @ replace_backtick (the_str (path r)) @ [BACKTICK],
      [BACKTICK] @ replace_backtick (method r) @ [BACKTICK],
      (if region_aware r then lit ''Yes'' else lit ''No''),
      (if absolute r then lit ''Yes'' else lit ''No''),
      wrapped_if_nonempty (owner r),
      wrapped_if_nonempty (endpoint_name r),
      wrapped_if_nonempty (backend_class r),
      (case locations r of
         None \<Rightarrow> []
       | Some s \<Rightarrow> if s = [] then [] else [BACKTICK] @ s @ [BACKTICK]),
      the_str (notes r)]"


subsection \<open>Rows and sections in the words of the documentation\<close>

text \<open>
  The pairs of a path and a method that qualify for a row: the path's \<open>methods\<close> field is a
  mapping and the metadata of the method is a mapping. A pair is named when its method key
  is not null. Every named qualifying pair has one expected row, paired here with the
  section its path resolves to.
\<close>

fun is_mapping :: "yaml \<Rightarrow> bool" where
  "is_mapping (YMap m) = True"
| "is_mapping _ = False"

fun the_map :: "yaml \<Rightarrow> (yaml \<times> yaml) list" where
  "the_map (YMap m) = m"
| "the_map _ = []"

definition path_methods :: "yaml \<Rightarrow> (yaml \<times> yaml) list" where
  "path_methods meta =
     (case meta of YMap m \<Rightarrow> the_map (dict_get m (lit ''methods'') YNull) | _ \<Rightarrow> [])"

definition path_pairs :: "yaml \<Rightarrow> yaml \<Rightarrow> (yaml \<times> yaml) list \<Rightarrow> (yaml \<times> yaml \<times> yaml \<times> yaml) list" where
  "path_pairs pth meta ms =
     map (\<lambda>(m, mm). (pth, meta, m, mm)) (filter (\<lambda>(m, mm). is_mapping mm) ms)"

definition qualifying_pairs :: "(yaml \<times> yaml) list \<Rightarrow> (yaml \<times> yaml \<times> yaml \<times> yaml) list" where
  "qualifying_pairs doc = concat (map (\<lambda>(pth, meta). path_pairs pth meta (path_methods meta)) doc)"

definition pair_row :: "builtins \<Rightarrow> yaml \<times> yaml \<times> yaml \<times> yaml \<Rightarrow> yaml \<times> row" where
  "pair_row L = (\<lambda>(pth, meta, m, mm).
     (resolve_section meta, make_row L pth meta (upper L (py_str L m)) (the_map mm)))"

definition named :: "yaml \<times> yaml \<times> yaml \<times> yaml \<Rightarrow> bool" where
  "named = (\<lambda>(pth, meta, m, mm). m \<noteq> YNull)"

definition path_rows :: "builtins \<Rightarrow> yaml \<Rightarrow> yaml \<Rightarrow> (yaml \<times> yaml) list \<Rightarrow> (yaml \<times> row) list" where
  "path_rows L pth meta ms = map (pair_row L) (filter named (path_pairs pth meta ms))"

definition expected_rows :: "builtins \<Rightarrow> (yaml \<times> yaml) list \<Rightarrow> (yaml \<times> row) list" where
  "expected_rows L doc = map (pair_row L) (filter named (qualifying_pairs doc))"

text \<open>
  What it means for the dictionary of sections to partition a list of rows, each given
  with its section name: no two sections have the same name, a section holds the rows of
  its name in their order, every row's name is the name of a section, and the sections
  together hold the rows and nothing else.
\<close>

fun distinct_keys :: "sections \<Rightarrow> bool" where
  "distinct_keys [] = True"
| "distinct_keys ((k, rs) # d) = ((\<forall>k' \<in> fst ` set d. \<not> py_eq k k') \<and> distinct_keys d)"

definition all_rows :: "sections \<Rightarrow> row list" where
  "all_rows secs = concat (map snd secs)"

definition grouped :: "sections \<Rightarrow> (yaml \<times> row) list \<Rightarrow> bool" where
  "grouped secs ex \<longleftrightarrow>
     distinct_keys secs
     \<and> (\<forall>(k, rs) \<in> set secs. rs = map snd (filter (\<lambda>(s, r). py_eq k s) ex))
     \<and> (\<forall>(s, r) \<in> set ex. \<exists>k \<in> fst ` set secs. py_eq k s)
     \<and> mset (all_rows secs) = mset (map snd ex)"


subsection \<open>Section order in the words of the documentation\<close>

text \<open>
  The order in which names are first encountered in a list, the text of one section as
  the renderer lays it out for a section with a string name, and an example document in
  which the section \<open>B\<close> is met before the section \<open>A\<close> and once more after it.
\<close>

definition see :: "'a \<Rightarrow> 'a list \<Rightarrow> 'a list" where
  "see x seen = (if x \<in> set seen then seen else seen @ [x])"

definition encounter_order :: "'a list \<Rightarrow> 'a list" where
  "encounter_order xs = fold see xs []"

definition section_table :: "builtins \<Rightarrow> yaml \<Rightarrow> row list \<Rightarrow> pystr" where
  "section_table L k rows =
     join NEWLINE
       ([lit ''### '' @ the_str k, [], table_line COLUMN_LABELS, DELIMITER_ROW]
        @ map (\<lambda>r. table_line (data_cells r)) (sort_key (row_key L) rows))"

definition three_sections_doc :: "(yaml \<times> yaml) list" where
  "three_sections_doc =
     [(YStr (lit ''/b''), YMap [(YStr (lit ''section''), YStr (lit ''B'')), (YStr (lit ''methods''), get_only)]),
      (YStr (lit ''/a''), YMap [(YStr (lit ''section''), YStr (lit ''A'')), (YStr (lit ''methods''), get_only)]),
      (YStr (lit ''/c''), YMap [(YStr (lit ''section''), YStr (lit ''B'')), (YStr (lit ''methods''), get_only)])]"

text \<open>
  The diagnostics the documentation promises: one for a path whose \<open>methods\<close> field is
  present, true and not a mapping, and, for the other paths, one for each method whose key
  is not null and whose metadata is not a mapping. A method whose key is null has none.
\<close>

definition skipped_path :: "yaml \<Rightarrow> bool" where
  "skipped_path meta =
     (case meta of
        YMap m \<Rightarrow> truthy (dict_get m (lit ''methods'') YNull)
                  \<and> \<not> is_mapping (dict_get m (lit ''methods'') YNull)
      | _ \<Rightarrow> False)"

definition method_diags :: "builtins \<Rightarrow> yaml \<Rightarrow> (yaml \<times> yaml) list \<Rightarrow> diagnostic list" where
  "method_diags L pth ms =
     map (\<lambda>(m, mm). SkipMethod pth (upper L (py_str L m)))
       (filter (\<lambda>(m, mm). m \<noteq> YNull \<and> \<not> is_mapping mm) ms)"

definition expected_diags :: "builtins \<Rightarrow> (yaml \<times> yaml) list \<Rightarrow> diagnostic list" where
  "expected_diags L doc =
     concat (map (\<lambda>(pth, meta).
       if skipped_path meta then [SkipPath pth] else method_diags L pth (path_methods meta)) doc)"


section \<open>Properties\<close>

text \<open>
  C5. On a string the sanitizer returns a string of the same length in which every
  backtick has become the prime character U+2032 and every other character is unchanged;
  on null it returns the empty string; and sanitizing a sanitized string changes nothing.
\<close>

theorem sanitize_code_span_spec:
  "length (sanitize_code_span (Some s)) = length s
   \<and> (\<forall>i<length s. sanitize_code_span (Some s) ! i = (if s ! i = BACKTICK then PRIME else s ! i))
   \<and> BACKTICK \<notin> set (sanitize_code_span (Some s))
   \<and> sanitize_code_span (Some (sanitize_code_span (Some s))) = sanitize_code_span (Some s)
   \<and> sanitize_code_span None = []"
proof -
  have neq: "PRIME \<noteq> BACKTICK"
    by (simp add: PRIME_def BACKTICK_def)
  have no_tick: "BACKTICK \<notin> set (replace_backtick s)"
    using neq by (auto simp: replace_backtick_def)
  have idem: "replace_backtick (replace_backtick s) = replace_backtick s"
    using neq by (simp add: replace_backtick_def)
  have pointwise: "\<forall>i<length s. replace_backtick s ! i = (if s ! i = BACKTICK then PRIME else s ! i)"
    by (simp add: replace_backtick_def)
  show ?thesis
    using no_tick idem pointwise by (simp add: replace_backtick_def)
qed

theorem sanitize_code_span_spec_witness:
  "sanitize_code_span (Some [97, 96, 98]) = [97, 8242, 98]
   \<and> sanitize_code_span (Some [97, 8242, 98]) = [97, 8242, 98]
   \<and> (1::nat) < length [97, 96, 98::nat]
   \<and> sanitize_code_span (Some [97, 96, 98]) ! 1 = PRIME"
  using sanitize_code_span_spec [of "[97, 96, 98]"]
  by (simp add: replace_backtick_def BACKTICK_def PRIME_def)

lemma non_null_parts_eq:
  "non_null_parts L ps = map (\<lambda>p. sanitize_code_span (Some (py_str L p))) (filter (\<lambda>p. p \<noteq> YNull) ps)"
  by (induction ps) simp_all

text \<open>
  C6. \<open>normalize_locations\<close> returns no value for null; the sanitized string for a string;
  for a sequence the sanitized string forms of its non-null elements joined with a comma
  and a space, or no value when no element is left; and for a boolean, an integer or a
  mapping the sanitized string form of the value. The sequence of the strings \<open>a`b\<close> and
  \<open>c\<close> gives \<open>a\<close>, U+2032, \<open>b, c\<close>.
\<close>

theorem normalize_locations_spec:
  "normalize_locations L YNull = None
   \<and> normalize_locations L (YStr s) = Some (sanitize_code_span (Some s))
   \<and> normalize_locations L (YSeq ps) =
       (let parts = map (\<lambda>p. sanitize_code_span (Some (py_str L p))) (filter (\<lambda>p. p \<noteq> YNull) ps)
        in if parts = [] then None else Some (join (lit '', '') parts))
   \<and> normalize_locations L (YBool b) = Some (sanitize_code_span (Some (py_str L (YBool b))))
   \<and> normalize_locations L (YInt i) = Some (sanitize_code_span (Some (py_str L (YInt i))))
   \<and> normalize_locations L (YMap m) = Some (sanitize_code_span (Some (py_str L (YMap m))))
   \<and> normalize_locations L (YSeq [YStr [97, 96, 98], YStr [99]]) = Some [97, 8242, 98, 44, 32, 99]"
  by (simp add: non_null_parts_eq Let_def lit_def replace_backtick_def BACKTICK_def PRIME_def)

lemma convert_cases:
  "convert L E no_sort doc = Inr out \<Longrightarrow>
     (write_ok E \<and> status out = 0 \<and> written out \<noteq> None)
     \<or> (\<not> write_ok E \<and> status out = 4 \<and> written out = None)"
  unfolding convert_def
  by (auto split: sum.splits prod.splits if_splits)

lemma main_cases:
  assumes "main L E no_sort = Inr out"
  shows "(input_text E = None \<and> status out = 2 \<and> written out = None)
     \<or> (\<exists>s. input_text E = Some s \<and> (\<forall>m. safe_load L s \<noteq> Some (YMap m))
           \<and> status out = 3 \<and> written out = None)
     \<or> (\<exists>s m. input_text E = Some s \<and> safe_load L s = Some (YMap m)
           \<and> convert L E no_sort m = Inr out)"
proof (cases "input_text E")
  case None
  with assms show ?thesis by (auto simp: main_def)
next
  case (Some s)
  show ?thesis
  proof (cases "parse_yaml L s")
    case (Inl e)
    then have "\<forall>m. safe_load L s \<noteq> Some (YMap m)"
      by (auto simp: parse_yaml_def)
    with assms Some Inl show ?thesis by (auto simp: main_def)
  next
    case (Inr m)
    then have "safe_load L s = Some (YMap m)"
      by (auto simp: parse_yaml_def split: option.splits yaml.splits)
    with assms Some Inr show ?thesis by (auto simp: main_def)
  qed
qed

text \<open>
  C8. A run that returns exits with status 0 on success, 2 when reading the input fails,
  3 when the document does not load or its top level is not a mapping, and 4 when writing
  the output fails; the four statuses identify their class, and nothing is written unless
  the status is 0.
\<close>

theorem main_exit_statuses:
  "(input_text E = None \<longrightarrow>
      main L E no_sort = Inr \<lparr> status = 2, written = None, stderr = [ReadFailed] \<rparr>)
   \<and> (input_text E = Some stream \<and> safe_load L stream = None \<longrightarrow>
      main L E no_sort = Inr \<lparr> status = 3, written = None, stderr = [ParseFailed] \<rparr>)
   \<and> (input_text E = Some stream \<and> safe_load L stream = Some v \<and> (\<forall>m. v \<noteq> YMap m) \<longrightarrow>
      main L E no_sort = Inr \<lparr> status = 3, written = None, stderr = [ParseFailed] \<rparr>)
   \<and> (input_text E = Some stream \<and> safe_load L stream = Some (YMap doc)
        \<and> build_rows L doc = Inr (secs, diags) \<and> output_text L no_sort secs = Inr text \<longrightarrow>
      main L E no_sort =
        (if write_ok E then Inr \<lparr> status = 0, written = Some text, stderr = diags \<rparr>
         else Inr \<lparr> status = 4, written = None, stderr = diags @ [WriteFailed] \<rparr>))
   \<and> (main L E no_sort = Inr out \<longrightarrow>
        status out \<in> {0, 2, 3, 4}
        \<and> (status out = 2 \<longleftrightarrow> input_text E = None)
        \<and> (status out = 3 \<longleftrightarrow>
             (\<exists>s. input_text E = Some s \<and> (\<forall>m. safe_load L s \<noteq> Some (YMap m))))
        \<and> (status out = 4 \<longleftrightarrow>
             (\<exists>s m. input_text E = Some s \<and> safe_load L s = Some (YMap m)) \<and> \<not> write_ok E)
        \<and> (status out = 0 \<longleftrightarrow>
             (\<exists>s m. input_text E = Some s \<and> safe_load L s = Some (YMap m)) \<and> write_ok E)
        \<and> (written out \<noteq> None \<longleftrightarrow> status out = 0))"
proof -
  have read: "input_text E = None \<longrightarrow>
      main L E no_sort = Inr \<lparr> status = 2, written = None, stderr = [ReadFailed] \<rparr>"
    by (simp add: main_def)
  have load: "input_text E = Some stream \<and> safe_load L stream = None \<longrightarrow>
      main L E no_sort = Inr \<lparr> status = 3, written = None, stderr = [ParseFailed] \<rparr>"
    by (simp add: main_def parse_yaml_def)
  have shape: "input_text E = Some stream \<and> safe_load L stream = Some v \<and> (\<forall>m. v \<noteq> YMap m) \<longrightarrow>
      main L E no_sort = Inr \<lparr> status = 3, written = None, stderr = [ParseFailed] \<rparr>"
    by (cases v) (simp_all add: main_def parse_yaml_def)
  have run: "input_text E = Some stream \<and> safe_load L stream = Some (YMap doc)
        \<and> build_rows L doc = Inr (secs, diags) \<and> output_text L no_sort secs = Inr text \<longrightarrow>
      main L E no_sort =
        (if write_ok E then Inr \<lparr> status = 0, written = Some text, stderr = diags \<rparr>
         else Inr \<lparr> status = 4, written = None, stderr = diags @ [WriteFailed] \<rparr>)"
    by (simp add: main_def parse_yaml_def convert_def)
  have classes: "main L E no_sort = Inr out \<longrightarrow>
        status out \<in> {0, 2, 3, 4}
        \<and> (status out = 2 \<longleftrightarrow> input_text E = None)
        \<and> (status out = 3 \<longleftrightarrow>
             (\<exists>s. input_text E = Some s \<and> (\<forall>m. safe_load L s \<noteq> Some (YMap m))))
        \<and> (status out = 4 \<longleftrightarrow>
             (\<exists>s m. input_text E = Some s \<and> safe_load L s = Some (YMap m)) \<and> \<not> write_ok E)
        \<and> (status out = 0 \<longleftrightarrow>
             (\<exists>s m. input_text E = Some s \<and> safe_load L s = Some (YMap m)) \<and> write_ok E)
        \<and> (written out \<noteq> None \<longleftrightarrow> status out = 0)"
  proof
    assume run_out: "main L E no_sort = Inr out"
    from main_cases [OF run_out] show "status out \<in> {0, 2, 3, 4}
        \<and> (status out = 2 \<longleftrightarrow> input_text E = None)
        \<and> (status out = 3 \<longleftrightarrow>
             (\<exists>s. input_text E = Some s \<and> (\<forall>m. safe_load L s \<noteq> Some (YMap m))))
        \<and> (status out = 4 \<longleftrightarrow>
             (\<exists>s m. input_text E = Some s \<and> safe_load L s = Some (YMap m)) \<and> \<not> write_ok E)
        \<and> (status out = 0 \<longleftrightarrow>
             (\<exists>s m. input_text E = Some s \<and> safe_load L s = Some (YMap m)) \<and> write_ok E)
        \<and> (written out \<noteq> None \<longleftrightarrow> status out = 0)"
    proof (elim disjE exE conjE)
      assume "input_text E = None" "status out = 2" "written out = None"
      then show ?thesis by simp
    next
      fix s
      assume "input_text E = Some s" "\<forall>m. safe_load L s \<noteq> Some (YMap m)"
        "status out = 3" "written out = None"
      then show ?thesis by simp
    next
      fix s m
      assume "input_text E = Some s" "safe_load L s = Some (YMap m)"
        "convert L E no_sort m = Inr out"
      then show ?thesis using convert_cases [of L E no_sort m out] by auto
    qed
  qed
  show ?thesis
    using read load shape run classes by blast
qed

lemma build_rows_empty: "build_rows L [] = Inr ([], [])"
  by (simp add: build_rows_def)

lemma output_text_empty: "output_text L no_sort [] = Inr [10]"
  by (simp add: output_text_def section_order_def py_sorted_names_def NEWLINE_def)

theorem main_exit_statuses_witness:
  "main (ascii_builtins (\<lambda>s. None)) \<lparr> input_text = None, write_ok = True \<rparr> False
      = Inr \<lparr> status = 2, written = None, stderr = [ReadFailed] \<rparr>
   \<and> main (ascii_builtins (\<lambda>s. None)) plain_env False
      = Inr \<lparr> status = 3, written = None, stderr = [ParseFailed] \<rparr>
   \<and> main (ascii_builtins (\<lambda>s. Some (YSeq []))) plain_env False
      = Inr \<lparr> status = 3, written = None, stderr = [ParseFailed] \<rparr>
   \<and> main (ascii_builtins (\<lambda>s. Some (YMap []))) plain_env False
      = Inr \<lparr> status = 0, written = Some [10], stderr = [] \<rparr>
   \<and> main (ascii_builtins (\<lambda>s. Some (YMap []))) (plain_env \<lparr> write_ok := False \<rparr>) False
      = Inr \<lparr> status = 4, written = None, stderr = [WriteFailed] \<rparr>"
proof -
  have a: "main (ascii_builtins (\<lambda>s. None)) \<lparr> input_text = None, write_ok = True \<rparr> False
      = Inr \<lparr> status = 2, written = None, stderr = [ReadFailed] \<rparr>"
    using main_exit_statuses [of "\<lparr> input_text = None, write_ok = True \<rparr>"
          "ascii_builtins (\<lambda>s. None)" False]
    by simp
  have b: "main (ascii_builtins (\<lambda>s. None)) plain_env False
      = Inr \<lparr> status = 3, written = None, stderr = [ParseFailed] \<rparr>"
    using main_exit_statuses [of plain_env "ascii_builtins (\<lambda>s. None)" False "[]"]
    by (simp add: plain_env_def ascii_builtins_def)
  have c: "main (ascii_builtins (\<lambda>s. Some (YSeq []))) plain_env False
      = Inr \<lparr> status = 3, written = None, stderr = [ParseFailed] \<rparr>"
    using main_exit_statuses [of plain_env "ascii_builtins (\<lambda>s. Some (YSeq []))" False "[]" "YSeq []"]
    by (simp add: plain_env_def ascii_builtins_def)
  have d: "main (ascii_builtins (\<lambda>s. Some (YMap []))) plain_env False
      = Inr \<lparr> status = 0, written = Some [10], stderr = [] \<rparr>"
    using main_exit_statuses [of plain_env "ascii_builtins (\<lambda>s. Some (YMap []))" False "[]"
        "YMap []" "[]" "[]" "[]" "[10]"]
    by (simp add: plain_env_def ascii_builtins_def build_rows_empty output_text_empty)
  have e: "main (ascii_builtins (\<lambda>s. Some (YMap []))) (plain_env \<lparr> write_ok := False \<rparr>) False
      = Inr \<lparr> status = 4, written = None, stderr = [WriteFailed] \<rparr>"
    using main_exit_statuses [of "plain_env \<lparr> write_ok := False \<rparr>"
        "ascii_builtins (\<lambda>s. Some (YMap []))" False "[]" "YMap []" "[]" "[]" "[]" "[10]"]
    by (simp add: plain_env_def ascii_builtins_def build_rows_empty output_text_empty)
  show ?thesis using a b c d e by simp
qed
text \<open>
  C10. When the input loads as the empty mapping and writing succeeds, the run exits with
  status 0, prints nothing to stderr and writes exactly one newline character.
\<close>

theorem empty_document_output:
  assumes "input_text E = Some stream" and "safe_load L stream = Some (YMap [])" and "write_ok E"
  shows "main L E no_sort = Inr \<lparr> status = 0, written = Some [10], stderr = [] \<rparr>"
  using assms
  by (simp add: main_def parse_yaml_def convert_def build_rows_def output_text_def
      section_order_def py_sorted_names_def NEWLINE_def)

theorem empty_document_output_witness:
  "main (ascii_builtins (\<lambda>s. Some (YMap []))) plain_env True
     = Inr \<lparr> status = 0, written = Some [10], stderr = [] \<rparr>"
  using empty_document_output [of plain_env "[]" "ascii_builtins (\<lambda>s. Some (YMap []))" True]
  by (simp add: ascii_builtins_def plain_env_def)

lemma add_diags_simps [simp]:
  "add_diags d (Inl e) = Inl e"
  "add_diags d (Inr (secs, d')) = Inr (secs, d @ d')"
  by (simp_all add: add_diags_def)

lemma add_diags_add_diags: "add_diags d (add_diags d' r) = add_diags (d @ d') r"
  by (cases r) (auto simp: add_diags_def)

lemma methods_loop_diags:
  "methods_loop L pth meta ms (secs, d) = add_diags d (methods_loop L pth meta ms (secs, []))"
proof (induction ms arbitrary: secs d)
  case Nil
  show ?case by simp
next
  case (Cons x ms)
  obtain method_raw method_meta where x: "x = (method_raw, method_meta)"
    by (cases x)
  show ?case
  proof (cases "method_raw = YNull")
    case True
    then show ?thesis using Cons.IH [of secs d] by (simp add: x)
  next
    case False
    show ?thesis
    proof (cases "\<exists>mm. method_meta = YMap mm")
      case True
      then obtain mm where mm: "method_meta = YMap mm" by blast
      show ?thesis
      proof (cases "setdefault_append (resolve_section meta)
                (make_row L pth meta (upper L (py_str L method_raw)) mm) secs")
        case (Inl e)
        then show ?thesis using False by (simp add: x mm)
      next
        case (Inr secs')
        then show ?thesis using False Cons.IH [of secs' d] Cons.IH [of secs' "[]"]
          by (simp add: x mm)
      qed
    next
      case notmap: False
      let ?s = "SkipMethod pth (upper L (py_str L method_raw))"
      have step: "\<And>d. methods_loop L pth meta (x # ms) (secs, d)
          = methods_loop L pth meta ms (secs, d @ [?s])"
        using False notmap by (cases method_meta) (simp_all add: x)
      show ?thesis
        using Cons.IH [of secs "d @ [?s]"] Cons.IH [of secs "[?s]"]
        by (simp add: step add_diags_add_diags)
    qed
  qed
qed

lemma paths_loop_diags:
  "paths_loop L doc (secs, d) = add_diags d (paths_loop L doc (secs, []))"
proof (induction doc arbitrary: secs d)
  case Nil
  show ?case by simp
next
  case (Cons x doc)
  obtain pth meta where x: "x = (pth, meta)"
    by (cases x)
  show ?case
  proof (cases "\<exists>ms. resolve_methods meta = YMap ms")
    case True
    then obtain ms where ms: "resolve_methods meta = YMap ms" by blast
    show ?thesis
    proof (cases "methods_loop L pth meta ms (secs, [])")
      case (Inl e)
      then show ?thesis
        using methods_loop_diags [of L pth meta ms secs d] by (simp add: x ms)
    next
      case (Inr st')
      obtain secs' d' where st': "st' = (secs', d')" by (cases st')
      show ?thesis
        using Inr methods_loop_diags [of L pth meta ms secs d]
          Cons.IH [of secs' "d @ d'"] Cons.IH [of secs' d']
        by (simp add: x ms st' add_diags_add_diags)
    qed
  next
    case False
    have step: "\<And>d. paths_loop L (x # doc) (secs, d) = paths_loop L doc (secs, d @ [SkipPath pth])"
      using False by (cases "resolve_methods meta") (simp_all add: x)
    show ?thesis
      using Cons.IH [of secs "d @ [SkipPath pth]"] Cons.IH [of secs "[SkipPath pth]"]
      by (simp add: step add_diags_add_diags)
  qed
qed

lemma paths_loop_append:
  "paths_loop L (xs @ ys) st =
     (case paths_loop L xs st of Inl e \<Rightarrow> Inl e | Inr st' \<Rightarrow> paths_loop L ys st')"
proof (induction xs arbitrary: st)
  case Nil
  show ?case by simp
next
  case (Cons x xs)
  obtain pth meta where x: "x = (pth, meta)" by (cases x)
  obtain secs d where st: "st = (secs, d)" by (cases st)
  show ?case
    using Cons.IH
    by (cases "resolve_methods meta")
       (simp_all add: x st split: sum.splits)
qed

lemma resolve_methods_present:
  assumes "map_of m (YStr (lit ''methods'')) = Some v"
  shows "resolve_methods (YMap m) = (if truthy v then v else YMap [])"
  using assms by (simp add: resolve_methods_def dict_get_def py_or_def)

lemma paths_loop_skip_path:
  assumes "map_of m (YStr (lit ''methods'')) = Some v" and "\<forall>ms. v \<noteq> YMap ms" and "truthy v"
  shows "paths_loop L ((pth, YMap m) # post) (secs, d) = paths_loop L post (secs, d @ [SkipPath pth])"
  using assms by (cases v) (simp_all add: resolve_methods_present)

lemma paths_loop_falsy_methods:
  assumes "map_of m (YStr (lit ''methods'')) = Some v" and "\<not> truthy v"
  shows "paths_loop L ((pth, YMap m) # post) st = paths_loop L post st"
  using assms by (cases st) (simp add: resolve_methods_present)

lemma build_rows_skip_path:
  assumes "map_of m (YStr (lit ''methods'')) = Some v" and "\<forall>ms. v \<noteq> YMap ms" and "truthy v"
  shows "case build_rows L (pre @ post) of
           Inl e \<Rightarrow> build_rows L (pre @ (pth, YMap m) # post) = Inl e
         | Inr (secs, ds) \<Rightarrow> \<exists>d1 d2. ds = d1 @ d2
             \<and> build_rows L (pre @ (pth, YMap m) # post) = Inr (secs, d1 @ SkipPath pth # d2)"
proof (cases "paths_loop L pre ([], [])")
  case (Inl e)
  then show ?thesis by (simp add: build_rows_def paths_loop_append)
next
  case (Inr st)
  obtain s1 d1 where st: "st = (s1, d1)" by (cases st)
  have with_path: "build_rows L (pre @ (pth, YMap m) # post)
      = add_diags (d1 @ [SkipPath pth]) (paths_loop L post (s1, []))"
    using Inr paths_loop_skip_path [OF assms, of L pth post s1 d1]
      paths_loop_diags [of L post s1 "d1 @ [SkipPath pth]"]
    by (simp add: build_rows_def paths_loop_append st)
  have without_path: "build_rows L (pre @ post) = add_diags d1 (paths_loop L post (s1, []))"
    using Inr paths_loop_diags [of L post s1 d1]
    by (simp add: build_rows_def paths_loop_append st)
  show ?thesis
  proof (cases "paths_loop L post (s1, [])")
    case (Inl e)
    then show ?thesis by (simp add: with_path without_path)
  next
    case post: (Inr st2)
    obtain s2 d2 where st2: "st2 = (s2, d2)" by (cases st2)
    show ?thesis
      using post by (auto simp: with_path without_path st2)
  qed
qed

lemma build_rows_falsy_methods:
  assumes "map_of m (YStr (lit ''methods'')) = Some v" and "\<not> truthy v"
  shows "build_rows L (pre @ (pth, YMap m) # post) = build_rows L (pre @ post)"
  using paths_loop_falsy_methods [OF assms]
  by (simp add: build_rows_def paths_loop_append split: sum.splits)

lemmas eval_defs = lit_def resolve_section_def resolve_methods_def resolve_absolute_def
  resolve_field_def dict_get_def py_or_def setdefault_append_def py_eq_def make_row_def
  ascii_builtins_def ascii_upper_def get_only_def

lemma build_two_sections: "build_rows (ascii_builtins ld) two_sections_doc =
   Inr ([(YStr (lit ''A''), [example_row (lit ''/a'')]), (YStr (lit ''B''), [example_row (lit ''/b'')])], [])"
  by (simp add: build_rows_def two_sections_doc_def example_row_def eval_defs)

lemma render_example_row: "render_section (ascii_builtins ld) (YStr s) [example_row (lit ''/a'')] =
    Inr (example_section s (lit ''/a''))"
  "render_section (ascii_builtins ld) (YStr s) [example_row (lit ''/b'')] =
    Inr (example_section s (lit ''/b''))"
  by (simp_all add: render_section_def py_sorted_rows_def render_row_def example_row_def optional_cell_def
     locations_cell_def bool_to_yesno_def NEWLINE_def py_or_def replace_backtick_def lit_def BACKTICK_def
     example_section_def)

text \<open>
  C1, evaluated on a document with the two sections \<open>A\<close> and \<open>B\<close>, one row each: the
  run writes the table of \<open>A\<close>, which ends with a bar, then four newline characters, then
  the table of \<open>B\<close>, which starts with a hash sign, then one newline. Three empty lines
  separate the two tables.
\<close>

theorem two_sections_three_blank_lines:
  "main (ascii_builtins (\<lambda>s. Some (YMap two_sections_doc))) plain_env False
     = Inr \<lparr> status = 0,
             written = Some (example_section (lit ''A'') (lit ''/a'') @ [10, 10, 10, 10]
                              @ example_section (lit ''B'') (lit ''/b'') @ [10]),
             stderr = [] \<rparr>
   \<and> last (example_section (lit ''A'') (lit ''/a'')) = 124
   \<and> hd (example_section (lit ''B'') (lit ''/b'')) = 35"
proof -
  have names: "section_order False
      [(YStr (lit ''A''), [example_row (lit ''/a'')]), (YStr (lit ''B''), [example_row (lit ''/b'')])]
      = Inr [YStr (lit ''A''), YStr (lit ''B'')]"
    by (simp add: section_order_def py_sorted_names_def lit_def)
  have out: "output_text (ascii_builtins ld) False
      [(YStr (lit ''A''), [example_row (lit ''/a'')]), (YStr (lit ''B''), [example_row (lit ''/b'')])]
      = Inr (example_section (lit ''A'') (lit ''/a'') @ [10, 10, 10, 10]
              @ example_section (lit ''B'') (lit ''/b'') @ [10])" for ld
    using names render_example_row [of ld]
    by (simp add: output_text_def py_eq_def NEWLINE_def lit_def)
  have run: "main (ascii_builtins (\<lambda>s. Some (YMap two_sections_doc))) plain_env False
     = Inr \<lparr> status = 0,
             written = Some (example_section (lit ''A'') (lit ''/a'') @ [10, 10, 10, 10]
                              @ example_section (lit ''B'') (lit ''/b'') @ [10]),
             stderr = [] \<rparr>"
  proof -
    have parse: "parse_yaml (ascii_builtins (\<lambda>s. Some (YMap two_sections_doc))) [] = Inr two_sections_doc"
      by (simp add: parse_yaml_def ascii_builtins_def)
    have conv: "convert (ascii_builtins ld) plain_env False two_sections_doc
       = Inr \<lparr> status = 0,
             written = Some (example_section (lit ''A'') (lit ''/a'') @ [10, 10, 10, 10]
                              @ example_section (lit ''B'') (lit ''/b'') @ [10]),
             stderr = [] \<rparr>" for ld
      by (simp add: convert_def build_two_sections out) (simp add: plain_env_def)
    show ?thesis
      by (simp add: main_def parse conv) (simp add: plain_env_def parse conv [unfolded plain_env_def])
  qed
  have ends: "last (example_section (lit ''A'') (lit ''/a'')) = 124"
    by (simp add: example_section_def table_line_def lit_def)
  have starts: "hd (example_section (lit ''B'') (lit ''/b'')) = 35"
    by (simp add: example_section_def lit_def)
  show ?thesis using run ends starts by simp
qed

text \<open>
  C2 fails as stated: a path whose \<open>methods\<close> field is the empty string, present and not a
  mapping, is skipped without a diagnostic; stderr stays empty.
\<close>

theorem empty_string_methods_no_diagnostic:
  "main (ascii_builtins (\<lambda>s. Some (YMap (string_methods_doc [])))) plain_env False
     = Inr \<lparr> status = 0, written = Some [10], stderr = [] \<rparr>"
  by (simp add: main_def parse_yaml_def convert_def plain_env_def ascii_builtins_def
      string_methods_doc_def build_rows_def resolve_methods_def dict_get_def py_or_def
      output_text_empty)

text \<open>
  C2, as amended. A path whose \<open>methods\<close> field is present, true as a Python value (not
  null, false, zero, the empty string or the empty sequence) and not a mapping is skipped
  with one diagnostic for the path: the run on the document with the path ends as the run
  on the document without it, with the same uncaught exception or the same status and
  written text, and with the diagnostic added to stderr; the sections built are the same.
  A path whose \<open>methods\<close> field is present, not a mapping and false as a Python value is
  skipped without any diagnostic.
\<close>

theorem non_mapping_methods_skipped:
  assumes "map_of m (YStr (lit ''methods'')) = Some v" and "\<forall>ms. v \<noteq> YMap ms"
  shows "(truthy v \<longrightarrow>
            (case convert L E no_sort (pre @ post) of
               Inl e \<Rightarrow> convert L E no_sort (pre @ (pth, YMap m) # post) = Inl e
             | Inr out' \<Rightarrow> \<exists>d1 d2. stderr out' = d1 @ d2
                 \<and> convert L E no_sort (pre @ (pth, YMap m) # post)
                     = Inr (out' \<lparr> stderr := d1 @ SkipPath pth # d2 \<rparr>))
            \<and> map_sum id fst (build_rows L (pre @ (pth, YMap m) # post))
                = map_sum id fst (build_rows L (pre @ post)))
       \<and> (\<not> truthy v \<longrightarrow>
            build_rows L (pre @ (pth, YMap m) # post) = build_rows L (pre @ post)
            \<and> convert L E no_sort (pre @ (pth, YMap m) # post) = convert L E no_sort (pre @ post))"
proof (cases "truthy v")
  case False
  then show ?thesis
    using build_rows_falsy_methods [OF assms(1) False]
    by (simp add: convert_def)
next
  case True
  note skip = build_rows_skip_path [OF assms True, where L = L and pre = pre and post = post and pth = pth]
  have sections_same: "map_sum id fst (build_rows L (pre @ (pth, YMap m) # post))
                = map_sum id fst (build_rows L (pre @ post))"
    using skip by (cases "build_rows L (pre @ post)") auto
  have run: "case convert L E no_sort (pre @ post) of
               Inl e \<Rightarrow> convert L E no_sort (pre @ (pth, YMap m) # post) = Inl e
             | Inr out' \<Rightarrow> \<exists>d1 d2. stderr out' = d1 @ d2
                 \<and> convert L E no_sort (pre @ (pth, YMap m) # post)
                     = Inr (out' \<lparr> stderr := d1 @ SkipPath pth # d2 \<rparr>)"
  proof (cases "build_rows L (pre @ post)")
    case (Inl e)
    then show ?thesis using skip by (simp add: convert_def)
  next
    case (Inr st)
    obtain secs ds where st: "st = (secs, ds)" by (cases st)
    from skip Inr st obtain d1 d2 where ds: "ds = d1 @ d2"
      and b: "build_rows L (pre @ (pth, YMap m) # post) = Inr (secs, d1 @ SkipPath pth # d2)"
      by auto
    show ?thesis
    proof (cases "output_text L no_sort secs")
      case (Inl e)
      then show ?thesis using Inr b by (simp add: convert_def st)
    next
      case rendered: (Inr t)
      show ?thesis
      proof (cases "write_ok E")
        case True
        then show ?thesis using Inr b rendered ds by (auto simp: convert_def st)
      next
        case False
        have without: "convert L E no_sort (pre @ post)
            = Inr \<lparr> status = 4, written = None, stderr = d1 @ (d2 @ [WriteFailed]) \<rparr>"
          using False Inr rendered ds by (simp add: convert_def st)
        have with_path: "convert L E no_sort (pre @ (pth, YMap m) # post)
            = Inr \<lparr> status = 4, written = None, stderr = d1 @ SkipPath pth # (d2 @ [WriteFailed]) \<rparr>"
          using False b rendered by (simp add: convert_def)
        have "\<exists>e1 e2. d1 @ (d2 @ [WriteFailed]) = e1 @ e2
            \<and> d1 @ SkipPath pth # (d2 @ [WriteFailed]) = e1 @ SkipPath pth # e2"
          by blast
        then show ?thesis by (simp add: without with_path)
      qed
    qed
  qed
  show ?thesis using True run sections_same by simp
qed

theorem non_mapping_methods_skipped_witness:
  "convert (ascii_builtins (\<lambda>s. None)) plain_env False (string_methods_doc (lit ''oops''))
     = Inr \<lparr> status = 0, written = Some [10], stderr = [SkipPath (YStr (lit ''/a''))] \<rparr>
   \<and> convert (ascii_builtins (\<lambda>s. None)) plain_env False (string_methods_doc [])
     = Inr \<lparr> status = 0, written = Some [10], stderr = [] \<rparr>"
proof -
  have base: "convert (ascii_builtins (\<lambda>s. None)) plain_env False []
      = Inr \<lparr> status = 0, written = Some [10], stderr = [] \<rparr>"
    by (simp add: convert_def build_rows_empty output_text_empty plain_env_def)
  have truthy_case: "convert (ascii_builtins (\<lambda>s. None)) plain_env False (string_methods_doc (lit ''oops''))
     = Inr \<lparr> status = 0, written = Some [10], stderr = [SkipPath (YStr (lit ''/a''))] \<rparr>"
    using non_mapping_methods_skipped [where m = "[(YStr (lit ''methods''), YStr (lit ''oops''))]"
        and v = "YStr (lit ''oops'')" and L = "ascii_builtins (\<lambda>s. None)" and E = plain_env
        and no_sort = False and pre = "[]" and post = "[]" and pth = "YStr (lit ''/a'')"]
    by (simp add: base string_methods_doc_def lit_def)
  have falsy_case: "convert (ascii_builtins (\<lambda>s. None)) plain_env False (string_methods_doc [])
     = Inr \<lparr> status = 0, written = Some [10], stderr = [] \<rparr>"
    using non_mapping_methods_skipped [where m = "[(YStr (lit ''methods''), YStr [])]"
        and v = "YStr []" and L = "ascii_builtins (\<lambda>s. None)" and E = plain_env
        and no_sort = False and pre = "[]" and post = "[]" and pth = "YStr (lit ''/a'')"]
    by (simp add: base string_methods_doc_def)
  show ?thesis using truthy_case falsy_case by simp
qed

lemma index_of_less: "x \<in> set xs \<Longrightarrow> index_of x xs < length xs"
  by (induction xs) auto

lemma method_sort_key_less:
  "method_sort_key L m1 < method_sort_key L m2 \<longleftrightarrow> method_before L m1 m2"
  using index_of_less [of "upper L m1" METHOD_ORDER] index_of_less [of "upper L m2" METHOD_ORDER]
  by (auto simp: method_sort_key_def method_before_def Let_def less_prod_def less_eq_prod_def)

lemma row_key_less:
  assumes "is_str (path a)" and "is_str (path b)"
  shows "row_key L a < row_key L b \<longleftrightarrow> row_before L a b"
proof -
  obtain s where s: "path a = YStr s" using assms(1) by (cases "path a") auto
  obtain t where t: "path b = YStr t" using assms(2) by (cases "path b") auto
  show ?thesis
    using method_sort_key_less [of L "method a" "method b"]
    by (auto simp: row_key_def row_before_def s t less_prod_def less_eq_prod_def)
qed

lemma row_key_eq:
  assumes "is_str (path a)" and "is_str (path b)"
  shows "row_key L a = row_key L b \<longleftrightarrow> \<not> row_before L a b \<and> \<not> row_before L b a"
  using row_key_less [OF assms, of L] row_key_less [OF assms(2) assms(1), of L]
  by (metis less_irrefl linorder_less_linear)

text \<open>
  C3. When the paths of the rows of a section are strings, sorting returns a permutation of
  the rows in which no row comes after a row that it precedes in the order of the
  specification (path first, then priority-list position, listed before unlisted, unlisted
  by string), and rows that tie keep the order they had before sorting.
\<close>

theorem rows_sorted_by_path_then_method:
  assumes "list_all (\<lambda>r. is_str (path r)) rows"
  shows "\<exists>rs. py_sorted_rows L rows = Inr rs
           \<and> mset rs = mset rows
           \<and> sorted_wrt (\<lambda>a b. \<not> row_before L b a) rs
           \<and> (\<forall>r\<in>set rows.
                 filter (\<lambda>x. \<not> row_before L x r \<and> \<not> row_before L r x) rs
                   = filter (\<lambda>x. \<not> row_before L x r \<and> \<not> row_before L r x) rows)"
proof -
  let ?rs = "sort_key (row_key L) rows"
  have strs: "\<And>r. r \<in> set rows \<Longrightarrow> is_str (path r)"
    using assms by (simp add: list_all_iff)
  have result: "py_sorted_rows L rows = Inr ?rs"
    using assms by (simp add: py_sorted_rows_def)
  have perm: "mset ?rs = mset rows"
    by simp
  have "sorted_wrt (\<lambda>a b. row_key L a \<le> row_key L b) ?rs"
    using sorted_sort_key [of "row_key L" rows] by (simp add: sorted_map)
  then have ordered: "sorted_wrt (\<lambda>a b. \<not> row_before L b a) ?rs"
  proof (rule sorted_wrt_mono_rel [rotated])
    fix a b
    assume "a \<in> set ?rs" and "b \<in> set ?rs" and "row_key L a \<le> row_key L b"
    then show "\<not> row_before L b a"
      using row_key_less [of b a L] strs by auto
  qed
  have stable: "filter (\<lambda>x. \<not> row_before L x r \<and> \<not> row_before L r x) ?rs
      = filter (\<lambda>x. \<not> row_before L x r \<and> \<not> row_before L r x) rows" if "r \<in> set rows" for r
  proof -
    have tie: "\<And>x. x \<in> set rows \<Longrightarrow>
        (\<not> row_before L x r \<and> \<not> row_before L r x) = (row_key L x = row_key L r)"
      using row_key_eq [of _ r L] strs that by blast
    have "filter (\<lambda>x. \<not> row_before L x r \<and> \<not> row_before L r x) ?rs
        = filter (\<lambda>x. row_key L x = row_key L r) ?rs"
      by (rule filter_cong) (simp_all add: tie)
    also have "\<dots> = filter (\<lambda>x. row_key L x = row_key L r) rows"
      by (rule sort_key_stable)
    also have "\<dots> = filter (\<lambda>x. \<not> row_before L x r \<and> \<not> row_before L r x) rows"
      by (rule filter_cong) (simp_all add: tie)
    finally show ?thesis .
  qed
  show ?thesis
    using result perm ordered stable by blast
qed

lemma method_sort_key_examples:
  "method_sort_key (ascii_builtins ld) (lit ''GET'') = (0, [])"
  "method_sort_key (ascii_builtins ld) (lit ''get'') = (0, [])"
  "method_sort_key (ascii_builtins ld) (lit ''post'') = (1, [])"
  "method_sort_key (ascii_builtins ld) (lit ''ABC'') = (7, lit ''ABC'')"
  "method_sort_key (ascii_builtins ld) (lit ''ZAP'') = (7, lit ''ZAP'')"
  by (simp_all add: method_sort_key_def METHOD_ORDER_def ascii_builtins_def ascii_upper_def lit_def)

lemma example_keys:
  "row_key (ascii_builtins ld) (example_row (lit ''/b'')) = ((0, [47, 98]), (0, []))"
  "row_key (ascii_builtins ld) (example_row (lit ''/a'')) = ((0, [47, 97]), (0, []))"
  "row_key (ascii_builtins ld) ((example_row (lit ''/a'')) \<lparr> method := lit ''get'' \<rparr>) = ((0, [47, 97]), (0, []))"
  "row_key (ascii_builtins ld) ((example_row (lit ''/a'')) \<lparr> method := lit ''post'' \<rparr>) = ((0, [47, 97]), (1, []))"
  "row_key (ascii_builtins ld) ((example_row (lit ''/a'')) \<lparr> method := lit ''ABC'' \<rparr>) = ((0, [47, 97]), (7, [65, 66, 67]))"
  "row_key (ascii_builtins ld) ((example_row (lit ''/a'')) \<lparr> method := lit ''ZAP'' \<rparr>) = ((0, [47, 97]), (7, [90, 65, 80]))"
  by (simp_all add: row_key_def example_row_def method_sort_key_examples) (simp_all add: lit_def)

lemma sort_example:
  "sort_key (row_key (ascii_builtins ld)) sort_example_rows
       = [(example_row (lit ''/a'')) \<lparr> method := lit ''get'' \<rparr>,
              example_row (lit ''/a''),
              (example_row (lit ''/a'')) \<lparr> method := lit ''post'' \<rparr>,
              (example_row (lit ''/a'')) \<lparr> method := lit ''ABC'' \<rparr>,
              (example_row (lit ''/a'')) \<lparr> method := lit ''ZAP'' \<rparr>,
              example_row (lit ''/b'')]"
  unfolding sort_example_rows_def
  by (simp add: example_keys less_eq_prod_def less_prod_def del: One_nat_def)

theorem rows_sorted_by_path_then_method_witness:
  "list_all (\<lambda>r. is_str (path r)) sort_example_rows
   \<and> py_sorted_rows (ascii_builtins (\<lambda>s. None)) sort_example_rows
       = Inr [(example_row (lit ''/a'')) \<lparr> method := lit ''get'' \<rparr>,
              example_row (lit ''/a''),
              (example_row (lit ''/a'')) \<lparr> method := lit ''post'' \<rparr>,
              (example_row (lit ''/a'')) \<lparr> method := lit ''ABC'' \<rparr>,
              (example_row (lit ''/a'')) \<lparr> method := lit ''ZAP'' \<rparr>,
              example_row (lit ''/b'')]"
proof -
  have strs: "list_all (\<lambda>r. is_str (path r)) sort_example_rows"
    by (simp add: sort_example_rows_def example_row_def)
  from rows_sorted_by_path_then_method [OF strs, of "ascii_builtins (\<lambda>s. None)"]
  obtain rs where "py_sorted_rows (ascii_builtins (\<lambda>s. None)) sort_example_rows = Inr rs"
    by blast
  moreover have "py_sorted_rows (ascii_builtins (\<lambda>s. None)) sort_example_rows
      = Inr (sort_key (row_key (ascii_builtins (\<lambda>s. None))) sort_example_rows)"
    using strs by (simp add: py_sorted_rows_def)
  ultimately show ?thesis
    using strs by (simp add: sort_example)
qed

subsection \<open>Format of a rendered section\<close>

lemma header_labels: "HEADER_ROW = table_line COLUMN_LABELS"
  by (simp add: HEADER_ROW_def table_line_def COLUMN_LABELS_def lit_def)

lemma optional_cell_typed:
  "str_or_null v \<Longrightarrow> optional_cell v = Inr (wrapped_if_nonempty v)"
  by (cases v) (simp_all add: optional_cell_def wrapped_if_nonempty_def code_span_def)

lemma notes_cell_typed:
  "str_or_null v \<Longrightarrow> py_str L (py_or v (YStr [])) = the_str v"
  by (cases v) (simp_all add: py_or_def)

lemma render_row_typed:
  assumes "typed_row r"
  shows "render_row L r = Inr (table_line (data_cells r))"
proof -
  obtain p where p: "path r = YStr p"
    using assms by (cases "path r") (auto simp: typed_row_def)
  have cells: "optional_cell (owner r) = Inr (wrapped_if_nonempty (owner r))"
    "optional_cell (endpoint_name r) = Inr (wrapped_if_nonempty (endpoint_name r))"
    "optional_cell (backend_class r) = Inr (wrapped_if_nonempty (backend_class r))"
    "py_str L (py_or (notes r) (YStr [])) = the_str (notes r)"
    using assms by (simp_all add: typed_row_def optional_cell_typed notes_cell_typed)
  show ?thesis
    by (simp add: render_row_def p cells data_cells_def code_span_def bool_to_yesno_def
        locations_cell_def split: option.splits)
qed

lemma render_rows_typed:
  "list_all typed_row rs \<Longrightarrow> render_rows L rs = Inr (map (\<lambda>r. table_line (data_cells r)) rs)"
  by (induction rs) (simp_all add: render_row_typed)



subsection \<open>One row per pair, partitioned into sections\<close>

lemma py_eq_refl [simp]: "py_eq a a"
  by (simp add: py_eq_def split: option.splits)

lemma py_eq_sym: "py_eq a b \<Longrightarrow> py_eq b a"
  by (auto simp add: py_eq_def split: option.splits)

lemma py_eq_trans: "py_eq a b \<Longrightarrow> py_eq b c \<Longrightarrow> py_eq a c"
  by (auto simp add: py_eq_def split: option.splits)

lemma dict_append_keys:
  "fst ` set (dict_append s r d) =
     fst ` set d \<union> (if \<exists>k \<in> fst ` set d. py_eq k s then {} else {s})"
proof (induction d)
  case Nil
  then show ?case by simp
next
  case (Cons a d)
  obtain k rs where a: "a = (k, rs)" by (cases a)
  show ?case
  proof (cases "py_eq k s")
    case True
    then have "\<exists>k' \<in> fst ` set (a # d). py_eq k' s" using a by simp
    then show ?thesis using a True by simp
  next
    case False
    then have "(\<exists>k' \<in> fst ` set (a # d). py_eq k' s) \<longleftrightarrow> (\<exists>k' \<in> fst ` set d. py_eq k' s)"
      using a by simp
    then show ?thesis using a False Cons.IH
      by (cases "\<exists>k' \<in> fst ` set d. py_eq k' s") (simp_all add: insert_commute)
  qed
qed

lemma dict_append_distinct:
  "distinct_keys d \<Longrightarrow> distinct_keys (dict_append s r d)"
proof (induction d)
  case Nil
  then show ?case by simp
next
  case (Cons a d)
  obtain k rs where a: "a = (k, rs)" by (cases a)
  show ?case
  proof (cases "py_eq k s")
    case True
    then show ?thesis using Cons.prems a by simp
  next
    case False
    have "\<not> py_eq k k'" if "k' \<in> fst ` set (dict_append s r d)" for k'
    proof -
      from that have "k' \<in> fst ` set d \<or> k' = s"
        unfolding dict_append_keys by (auto split: if_splits)
      then show ?thesis using Cons.prems a False by auto
    qed
    then show ?thesis using Cons a False by simp
  qed
qed

lemma dict_append_all_rows:
  "mset (all_rows (dict_append s r d)) = mset (all_rows d) + {#r#}"
  by (induction d) (auto simp add: all_rows_def)

lemma dict_append_entries:
  assumes "distinct_keys d" and "(k, rs) \<in> set (dict_append s r d)"
  shows "(\<exists>rs0. (k, rs0) \<in> set d \<and> rs = (if py_eq k s then rs0 @ [r] else rs0))
         \<or> ((\<forall>k' \<in> fst ` set d. \<not> py_eq k' s) \<and> k = s \<and> rs = [r])"
  using assms
proof (induction d)
  case Nil
  then show ?case by simp
next
  case (Cons a d)
  obtain k0 rs0 where a: "a = (k0, rs0)" by (cases a)
  show ?case
  proof (cases "py_eq k0 s")
    case True
    have other: "\<not> py_eq k' s" if "k' \<in> fst ` set d" for k'
    proof
      assume "py_eq k' s"
      then have "py_eq k0 k'" using True py_eq_trans py_eq_sym by blast
      then show False using Cons.prems(1) a that by auto
    qed
    from Cons.prems(2) a True have "(k, rs) = (k0, rs0 @ [r]) \<or> (k, rs) \<in> set d"
      by simp
    then show ?thesis
    proof
      assume "(k, rs) = (k0, rs0 @ [r])"
      then show ?thesis using a True by auto
    next
      assume in_d: "(k, rs) \<in> set d"
      then have "\<not> py_eq k s" using other by force
      then show ?thesis using in_d by auto
    qed
  next
    case False
    from Cons.prems(2) a False have "(k, rs) = (k0, rs0) \<or> (k, rs) \<in> set (dict_append s r d)"
      by simp
    then show ?thesis
    proof
      assume "(k, rs) = (k0, rs0)"
      then show ?thesis using a False by auto
    next
      assume "(k, rs) \<in> set (dict_append s r d)"
      with Cons.IH Cons.prems(1) a
      have "(\<exists>rs0. (k, rs0) \<in> set d \<and> rs = (if py_eq k s then rs0 @ [r] else rs0))
         \<or> ((\<forall>k' \<in> fst ` set d. \<not> py_eq k' s) \<and> k = s \<and> rs = [r])"
        by simp
      then show ?thesis using a False by auto
    qed
  qed
qed

lemma grouped_empty: "grouped [] []"
  by (simp add: grouped_def all_rows_def)

lemma grouped_append:
  assumes "grouped secs ex"
  shows "grouped (dict_append s r secs) (ex @ [(s, r)])"
proof -
  from assms have dk: "distinct_keys secs"
    and rows: "\<And>k rs. (k, rs) \<in> set secs \<Longrightarrow> rs = map snd (filter (\<lambda>(s, r). py_eq k s) ex)"
    and cover: "\<And>s' r'. (s', r') \<in> set ex \<Longrightarrow> \<exists>k \<in> fst ` set secs. py_eq k s'"
    and all: "mset (all_rows secs) = mset (map snd ex)"
    by (auto simp add: grouped_def)
  have 1: "distinct_keys (dict_append s r secs)"
    using dk by (rule dict_append_distinct)
  have 2: "rs = map snd (filter (\<lambda>(s, r). py_eq k s) (ex @ [(s, r)]))"
    if "(k, rs) \<in> set (dict_append s r secs)" for k rs
  proof -
    from dict_append_entries [OF dk that]
    show ?thesis
    proof
      assume "\<exists>rs0. (k, rs0) \<in> set secs \<and> rs = (if py_eq k s then rs0 @ [r] else rs0)"
      then obtain rs0 where "(k, rs0) \<in> set secs"
        and "rs = (if py_eq k s then rs0 @ [r] else rs0)" by blast
      then show ?thesis using rows [of k rs0] by simp
    next
      assume new: "(\<forall>k' \<in> fst ` set secs. \<not> py_eq k' s) \<and> k = s \<and> rs = [r]"
      have "\<not> py_eq s s'" if "(s', r') \<in> set ex" for s' r'
      proof
        assume "py_eq s s'"
        moreover from cover [OF that] obtain k' where "k' \<in> fst ` set secs" "py_eq k' s'"
          by blast
        ultimately have "py_eq k' s" using py_eq_trans py_eq_sym by blast
        then show False using new \<open>k' \<in> fst ` set secs\<close> by blast
      qed
      then have "filter (\<lambda>(s', r). py_eq s s') ex = []"
        by (auto simp add: filter_empty_conv)
      then show ?thesis using new by simp
    qed
  qed
  have 3: "\<exists>k \<in> fst ` set (dict_append s r secs). py_eq k s'"
    if "(s', r') \<in> set (ex @ [(s, r)])" for s' r'
  proof (cases "(s', r') \<in> set ex")
    case True
    from cover [OF True] show ?thesis
      unfolding dict_append_keys by blast
  next
    case False
    then have "s' = s" using that by simp
    then show ?thesis
      unfolding dict_append_keys by (cases "\<exists>k \<in> fst ` set secs. py_eq k s") auto
  qed
  have 4: "mset (all_rows (dict_append s r secs)) = mset (map snd (ex @ [(s, r)]))"
    using all by (simp add: dict_append_all_rows)
  show ?thesis
    unfolding grouped_def using 1 2 3 4 by (intro conjI) blast+
qed

lemma path_rows_Nil [simp]: "path_rows L pth meta [] = []"
  by (simp add: path_rows_def path_pairs_def)

lemma path_rows_Cons:
  "path_rows L pth meta ((m, mm) # rest) =
     (if is_mapping mm \<and> m \<noteq> YNull then [pair_row L (pth, meta, m, mm)] else [])
     @ path_rows L pth meta rest"
  by (simp add: path_rows_def path_pairs_def named_def)

lemma expected_rows_Nil [simp]: "expected_rows L [] = []"
  by (simp add: expected_rows_def qualifying_pairs_def)

lemma expected_rows_Cons:
  "expected_rows L ((pth, meta) # rest) =
     path_rows L pth meta (path_methods meta) @ expected_rows L rest"
  by (simp add: expected_rows_def qualifying_pairs_def path_rows_def)

lemma path_methods_resolved:
  "resolve_methods meta = YMap ms \<Longrightarrow> path_methods meta = ms"
proof (cases meta)
  case (YMap m)
  assume "resolve_methods meta = YMap ms"
  then show ?thesis using YMap
    by (cases "dict_get m (lit ''methods'') YNull")
       (simp_all add: resolve_methods_def path_methods_def py_or_def split: if_splits)
qed (auto simp add: resolve_methods_def path_methods_def)

lemma path_methods_skipped:
  "\<not> is_mapping (resolve_methods meta) \<Longrightarrow> path_methods meta = []"
proof (cases meta)
  case (YMap m)
  assume "\<not> is_mapping (resolve_methods meta)"
  then show ?thesis using YMap
    by (cases "dict_get m (lit ''methods'') YNull")
       (simp_all add: resolve_methods_def path_methods_def py_or_def split: if_splits)
qed (auto simp add: resolve_methods_def path_methods_def)

lemma methods_loop_grouped:
  assumes "list_all (\<lambda>(s, r). hashable s) (path_rows L pth meta ms)" and "grouped secs ex"
  shows "\<exists>secs' diags'. methods_loop L pth meta ms (secs, diags) = Inr (secs', diags')
           \<and> grouped secs' (ex @ path_rows L pth meta ms)"
  using assms
proof (induction ms arbitrary: secs diags ex)
  case Nil
  then show ?case by simp
next
  case (Cons a ms)
  obtain m mm where a: "a = (m, mm)" by (cases a)
  from Cons.prems(1) a have rest: "list_all (\<lambda>(s, r). hashable s) (path_rows L pth meta ms)"
    by (simp add: path_rows_Cons)
  show ?case
  proof (cases "m = YNull")
    case True
    then show ?thesis
      using Cons.IH [OF rest Cons.prems(2), of diags] a by (simp add: path_rows_Cons)
  next
    case named: False
    show ?thesis
    proof (cases "is_mapping mm")
      case True
      then obtain x where mm: "mm = YMap x" by (cases mm) simp_all
      let ?r = "make_row L pth meta (upper L (py_str L m)) x"
      have h: "hashable (resolve_section meta)"
        using Cons.prems(1) a named True by (simp add: path_rows_Cons pair_row_def)
      have "grouped (dict_append (resolve_section meta) ?r secs) (ex @ [(resolve_section meta, ?r)])"
        using Cons.prems(2) by (rule grouped_append)
      from Cons.IH [OF rest this, of diags] show ?thesis
        using a named mm h
        by (simp add: path_rows_Cons pair_row_def setdefault_append_def)
    next
      case False
      then have "methods_loop L pth meta (a # ms) (secs, diags) =
          methods_loop L pth meta ms (secs, diags @ [SkipMethod pth (upper L (py_str L m))])"
        using a named by (cases mm) simp_all
      then show ?thesis
        using Cons.IH [OF rest Cons.prems(2), of "diags @ [SkipMethod pth (upper L (py_str L m))]"]
          a False
        by (simp add: path_rows_Cons)
    qed
  qed
qed

lemma paths_loop_grouped:
  assumes "list_all (\<lambda>(s, r). hashable s) (expected_rows L doc)" and "grouped secs ex"
  shows "\<exists>secs' diags'. paths_loop L doc (secs, diags) = Inr (secs', diags')
           \<and> grouped secs' (ex @ expected_rows L doc)"
  using assms
proof (induction doc arbitrary: secs diags ex)
  case Nil
  then show ?case by simp
next
  case (Cons a doc)
  obtain pth meta where a: "a = (pth, meta)" by (cases a)
  from Cons.prems(1) a
  have h: "list_all (\<lambda>(s, r). hashable s) (path_rows L pth meta (path_methods meta))"
    and rest: "list_all (\<lambda>(s, r). hashable s) (expected_rows L doc)"
    by (simp_all add: expected_rows_Cons)
  show ?case
  proof (cases "is_mapping (resolve_methods meta)")
    case True
    then obtain ms where ms: "resolve_methods meta = YMap ms"
      by (cases "resolve_methods meta") simp_all
    from h have "list_all (\<lambda>(s, r). hashable s) (path_rows L pth meta ms)"
      by (simp add: path_methods_resolved [OF ms])
    from methods_loop_grouped [OF this Cons.prems(2), of diags]
    obtain secs1 diags1 where
      loop: "methods_loop L pth meta ms (secs, diags) = Inr (secs1, diags1)"
      and g1: "grouped secs1 (ex @ path_rows L pth meta ms)"
      by blast
    from Cons.IH [OF rest g1, of diags1] show ?thesis
      using a ms loop by (simp add: expected_rows_Cons path_methods_resolved [OF ms])
  next
    case False
    then have "paths_loop L (a # doc) (secs, diags) = paths_loop L doc (secs, diags @ [SkipPath pth])"
      using a by (cases "resolve_methods meta") simp_all
    then show ?thesis
      using Cons.IH [OF rest Cons.prems(2), of "diags @ [SkipPath pth]"] a
      by (simp add: expected_rows_Cons path_methods_skipped [OF False])
  qed
qed



lemma method_diags_Nil [simp]: "method_diags L pth [] = []"
  by (simp add: method_diags_def)


lemma expected_diags_Nil [simp]: "expected_diags L [] = []"
  by (simp add: expected_diags_def)









subsection \<open>Order of the sections\<close>

lemma py_eq_str [simp]: "py_eq k (YStr s) \<longleftrightarrow> k = YStr s"
  by (simp add: py_eq_def split: option.splits)

lemma dict_append_order:
  "is_str s \<Longrightarrow> map fst (dict_append s r d) = see s (map fst d)"
proof (induction d)
  case Nil
  then show ?case by (simp add: see_def)
next
  case (Cons a d)
  obtain x where s: "s = YStr x" using Cons.prems by (cases s) simp_all
  obtain k rs where a: "a = (k, rs)" by (cases a)
  show ?case
    using Cons a s by (auto simp add: see_def split: if_splits)
qed

lemma methods_loop_order:
  assumes "methods_loop L pth meta ms (secs, diags) = Inr (secs', diags')"
    and "list_all (\<lambda>(s, r). is_str s) (path_rows L pth meta ms)"
  shows "map fst secs' = fold see (map fst (path_rows L pth meta ms)) (map fst secs)"
  using assms
proof (induction ms arbitrary: secs diags)
  case Nil
  then show ?case by simp
next
  case (Cons a ms)
  obtain m mm where a: "a = (m, mm)" by (cases a)
  from Cons.prems(2) a have rest: "list_all (\<lambda>(s, r). is_str s) (path_rows L pth meta ms)"
    by (simp add: path_rows_Cons)
  show ?case
  proof (cases "m = YNull")
    case True
    then show ?thesis
      using Cons.IH [OF _ rest, of secs diags] Cons.prems(1) a by (simp add: path_rows_Cons)
  next
    case named: False
    show ?thesis
    proof (cases "is_mapping mm")
      case True
      then obtain x where mm: "mm = YMap x" by (cases mm) simp_all
      let ?r = "make_row L pth meta (upper L (py_str L m)) x"
      have str: "is_str (resolve_section meta)"
        using Cons.prems(2) a named True by (simp add: path_rows_Cons pair_row_def)
      then have h: "hashable (resolve_section meta)"
        by (cases "resolve_section meta") simp_all
      from Cons.prems(1) a named mm h
      have "methods_loop L pth meta ms (dict_append (resolve_section meta) ?r secs, diags)
          = Inr (secs', diags')"
        by (simp add: setdefault_append_def)
      from Cons.IH [OF this rest] show ?thesis
        using a named mm by (simp add: path_rows_Cons pair_row_def dict_append_order [OF str])
    next
      case False
      then have "methods_loop L pth meta (a # ms) (secs, diags) =
          methods_loop L pth meta ms (secs, diags @ [SkipMethod pth (upper L (py_str L m))])"
        using a named by (cases mm) simp_all
      with Cons.prems(1)
      have "methods_loop L pth meta ms (secs, diags @ [SkipMethod pth (upper L (py_str L m))])
          = Inr (secs', diags')"
        by simp
      from Cons.IH [OF this rest] show ?thesis
        using a False by (simp add: path_rows_Cons)
    qed
  qed
qed

lemma paths_loop_order:
  assumes "paths_loop L doc (secs, diags) = Inr (secs', diags')"
    and "list_all (\<lambda>(s, r). is_str s) (expected_rows L doc)"
  shows "map fst secs' = fold see (map fst (expected_rows L doc)) (map fst secs)"
  using assms
proof (induction doc arbitrary: secs diags)
  case Nil
  then show ?case by simp
next
  case (Cons a doc)
  obtain pth meta where a: "a = (pth, meta)" by (cases a)
  from Cons.prems(2) a
  have h: "list_all (\<lambda>(s, r). is_str s) (path_rows L pth meta (path_methods meta))"
    and rest: "list_all (\<lambda>(s, r). is_str s) (expected_rows L doc)"
    by (simp_all add: expected_rows_Cons)
  show ?case
  proof (cases "is_mapping (resolve_methods meta)")
    case True
    then obtain ms where ms: "resolve_methods meta = YMap ms"
      by (cases "resolve_methods meta") simp_all
    from h have strs: "list_all (\<lambda>(s, r). is_str s) (path_rows L pth meta ms)"
      by (simp add: path_methods_resolved [OF ms])
    from Cons.prems(1) a ms obtain secs1 diags1 where
      loop: "methods_loop L pth meta ms (secs, diags) = Inr (secs1, diags1)"
      and after: "paths_loop L doc (secs1, diags1) = Inr (secs', diags')"
      by (auto split: sum.splits)
    from methods_loop_order [OF loop strs] Cons.IH [OF after rest] show ?thesis
      using a by (simp add: expected_rows_Cons path_methods_resolved [OF ms])
  next
    case False
    then have "paths_loop L (a # doc) (secs, diags) = paths_loop L doc (secs, diags @ [SkipPath pth])"
      using a by (cases "resolve_methods meta") simp_all
    with Cons.prems(1) have "paths_loop L doc (secs, diags @ [SkipPath pth]) = Inr (secs', diags')"
      by simp
    from Cons.IH [OF this rest] show ?thesis
      using a by (simp add: expected_rows_Cons path_methods_skipped [OF False])
  qed
qed

lemma set_see [simp]: "set (see x seen) = insert x (set seen)"
  by (auto simp add: see_def)

lemma set_fold_see: "set (fold see xs seen) = set xs \<union> set seen"
  by (induction xs arbitrary: seen) auto

lemma set_encounter_order [simp]: "set (encounter_order xs) = set xs"
  by (simp add: encounter_order_def set_fold_see)

lemma dict_lookup_entry:
  "distinct_keys secs \<Longrightarrow> (k, rs) \<in> set secs \<Longrightarrow> dict_lookup k secs = Inr rs"
proof (induction secs)
  case Nil
  then show ?case by simp
next
  case (Cons a secs)
  obtain k0 rs0 where a: "a = (k0, rs0)" by (cases a)
  show ?case
  proof (cases "(k, rs) = (k0, rs0)")
    case True
    then show ?thesis using a by simp
  next
    case False
    then have in_rest: "(k, rs) \<in> set secs" using Cons.prems(2) a by auto
    then have "\<not> py_eq k0 k" using Cons.prems(1) a by force
    then show ?thesis using Cons a in_rest by simp
  qed
qed

lemma render_section_typed:
  assumes "list_all typed_row rows" and "is_str k"
  shows "render_section L k rows = Inr (section_table L k rows)"
proof -
  let ?rs = "sort_key (row_key L) rows"
  have "list_all (\<lambda>r. is_str (path r)) rows"
    using assms(1) by (simp add: list_all_iff typed_row_def)
  then have sorted: "py_sorted_rows L rows = Inr ?rs"
    by (simp add: py_sorted_rows_def)
  have "list_all typed_row ?rs"
    using assms(1) by (simp add: list_all_iff)
  then have lines: "render_rows L ?rs = Inr (map (\<lambda>r. table_line (data_cells r)) ?rs)"
    by (rule render_rows_typed)
  obtain s where "k = YStr s" using assms(2) by (cases k) simp_all
  then show ?thesis
    using sorted lines by (simp add: render_section_def section_table_def header_labels)
qed

lemma section_table_nonempty: "section_table L k rows \<noteq> []"
  by (simp add: section_table_def lit_def)

lemma out_parts_loop_entries:
  assumes "distinct_keys secs" and "set es \<subseteq> set secs"
    and "\<forall>(k, rs) \<in> set es. is_str k \<and> list_all typed_row rs"
  shows "\<exists>parts. out_parts_loop L secs (map fst es) first = Inr parts
           \<and> filter (\<lambda>p. p \<noteq> []) parts = map (\<lambda>(k, rs). section_table L k rs) es"
  using assms(2,3)
proof (induction es arbitrary: first)
  case Nil
  then show ?case by simp
next
  case (Cons e es)
  obtain k rs where e: "e = (k, rs)" by (cases e)
  from Cons.prems e have "(k, rs) \<in> set secs" and str: "is_str k" and typed: "list_all typed_row rs"
    by auto
  then have lookup: "dict_lookup k secs = Inr rs"
    using assms(1) dict_lookup_entry by blast
  have rendered: "render_section L k rs = Inr (section_table L k rs)"
    using typed str by (rule render_section_typed)
  from Cons.prems have "set es \<subseteq> set secs" "\<forall>(k, rs) \<in> set es. is_str k \<and> list_all typed_row rs"
    by auto
  from Cons.IH [OF this, of False] obtain parts where
    "out_parts_loop L secs (map fst es) False = Inr parts"
    "filter (\<lambda>p. p \<noteq> []) parts = map (\<lambda>(k, rs). section_table L k rs) es"
    by blast
  then show ?case
    using e lookup rendered by (simp add: section_table_nonempty)
qed

lemma map_insort_key:
  "map f (insort_key (\<lambda>e. g (f e)) x xs) = insort_key g (f x) (map f xs)"
  by (induction xs) simp_all

lemma map_sort_key:
  "map f (sort_key (\<lambda>e. g (f e)) xs) = sort_key g (map f xs)"
  by (induction xs) (simp_all add: map_insort_key)

lemma distinct_keys_distinct: "distinct_keys secs \<Longrightarrow> distinct (map fst secs)"
proof (induction secs)
  case Nil
  then show ?case by simp
next
  case (Cons a secs)
  obtain k rs where a: "a = (k, rs)" by (cases a)
  have "k \<notin> fst ` set secs"
  proof
    assume "k \<in> fst ` set secs"
    with Cons.prems a have "\<not> py_eq k k" by auto
    then show False by simp
  qed
  then show ?case using Cons a by simp
qed

lemma sorted_string_keys:
  assumes "distinct (map fst es)" and "\<forall>e \<in> set es. is_str (fst e)"
    and "sorted (map (\<lambda>e. order_key (fst e)) es)"
  shows "sorted_wrt (<) (map (\<lambda>(k, rs). the_str k) es)"
proof -
  have key: "order_key (fst e) = (0, the_str (fst e))" if "e \<in> set es" for e
  proof -
    from that assms(2) obtain s where "fst e = YStr s"
      by (cases "fst e") auto
    then show ?thesis by simp
  qed
  have eq: "map (\<lambda>e. order_key (fst e)) es = map (\<lambda>e. (0, the_str (fst e))) es"
    using key by simp
  have "sorted (map (\<lambda>e. (0 :: int, the_str (fst e))) es)"
    using assms(3) unfolding eq .
  then have 1: "sorted (map (\<lambda>e. the_str (fst e)) es)"
    by (simp add: sorted_wrt_map less_eq_prod_def)
  have "inj_on the_str (set (map fst es))"
  proof (rule inj_onI)
    fix a b assume ab: "a \<in> set (map fst es)" "b \<in> set (map fst es)"
      and eq_str: "the_str a = the_str b"
    from ab assms(2) have "is_str a" "is_str b" by auto
    then obtain x y where "a = YStr x" "b = YStr y"
      by (cases a; cases b) simp_all
    then show "a = b" using eq_str by simp
  qed
  with assms(1) have "distinct (map the_str (map fst es))"
    unfolding distinct_map [of the_str "map fst es"] by blast
  then have 2: "distinct (map (\<lambda>e. the_str (fst e)) es)"
    by (simp add: comp_def)
  show ?thesis
    using 1 2 by (simp add: strict_sorted_iff case_prod_unfold)
qed

text \<open>
  C7. For every document whose rows have string section names and fields typed as in the
  data model, the normalizer returns sections whose names are in the order in which the
  rows of the document first name them. By default the run writes the sections in strictly
  increasing order of their names, compared as strings by code points; with the no-sort
  flag it writes them in the order of first encounter. In both cases the non-empty parts
  of the output are the tables of the sections, each starting with its heading, in that
  order.
\<close>

theorem sections_ordered:
  assumes "list_all (\<lambda>(s, r). is_str s \<and> typed_row r) (expected_rows L doc)"
  shows "\<exists>secs diags sorted_secs parts_sorted parts_unsorted.
      build_rows L doc = Inr (secs, diags)
    \<and> map fst secs = encounter_order (map fst (expected_rows L doc))
    \<and> mset sorted_secs = mset secs
    \<and> sorted_wrt (<) (map (\<lambda>(k, rs). the_str k) sorted_secs)
    \<and> output_text L False secs = Inr (join (NEWLINE @ NEWLINE) parts_sorted @ NEWLINE)
    \<and> filter (\<lambda>p. p \<noteq> []) parts_sorted = map (\<lambda>(k, rs). section_table L k rs) sorted_secs
    \<and> output_text L True secs = Inr (join (NEWLINE @ NEWLINE) parts_unsorted @ NEWLINE)
    \<and> filter (\<lambda>p. p \<noteq> []) parts_unsorted = map (\<lambda>(k, rs). section_table L k rs) secs"
proof -
  let ?ex = "expected_rows L doc"
  from assms have strs: "list_all (\<lambda>(s, r). is_str s) ?ex"
    by (auto simp add: list_all_iff)
  have "hashable s" if "is_str s" for s
    using that by (cases s) simp_all
  with strs have "list_all (\<lambda>(s, r). hashable s) ?ex"
    by (auto simp add: list_all_iff)
  from paths_loop_grouped [OF this grouped_empty, of "[]"]
  obtain secs diags where loop: "paths_loop L doc ([], []) = Inr (secs, diags)"
    and g: "grouped secs ?ex"
    by auto
  have built: "build_rows L doc = Inr (secs, diags)"
    using loop by (simp add: build_rows_def)
  have order: "map fst secs = encounter_order (map fst ?ex)"
    using paths_loop_order [OF loop strs] by (simp add: encounter_order_def)
  from g have dk: "distinct_keys secs"
    and rows: "\<And>k rs. (k, rs) \<in> set secs \<Longrightarrow> rs = map snd (filter (\<lambda>(s, r). py_eq k s) ?ex)"
    by (auto simp add: grouped_def)
  have typed: "\<forall>(k, rs) \<in> set secs. is_str k \<and> list_all typed_row rs"
  proof (clarify, rule conjI)
    fix k rs assume in_secs: "(k, rs) \<in> set secs"
    then have "k \<in> set (map fst secs)" by force
    then have "k \<in> set (map fst ?ex)" unfolding order by simp
    then show "is_str k" using strs by (auto simp add: list_all_iff)
    show "list_all typed_row rs"
      unfolding rows [OF in_secs] using assms by (auto simp add: list_all_iff)
  qed
  then have str_keys: "list_all is_str (map fst secs)"
    by (auto simp add: list_all_iff)
  let ?ss = "sort_key (\<lambda>e. order_key (fst e)) secs"
  have names_sorted: "section_order False secs = Inr (map fst ?ss)"
    using str_keys by (simp add: section_order_def py_sorted_names_def map_sort_key)
  have names_unsorted: "section_order True secs = Inr (map fst secs)"
    by (simp add: section_order_def)
  have "set ?ss \<subseteq> set secs" and "\<forall>(k, rs) \<in> set ?ss. is_str k \<and> list_all typed_row rs"
    using typed by simp_all
  from out_parts_loop_entries [OF dk this, of L True]
  obtain parts_sorted where ps: "out_parts_loop L secs (map fst ?ss) True = Inr parts_sorted"
    "filter (\<lambda>p. p \<noteq> []) parts_sorted = map (\<lambda>(k, rs). section_table L k rs) ?ss"
    by blast
  have "set secs \<subseteq> set secs" by simp
  from out_parts_loop_entries [OF dk this typed, of L True]
  obtain parts_unsorted where pu: "out_parts_loop L secs (map fst secs) True = Inr parts_unsorted"
    "filter (\<lambda>p. p \<noteq> []) parts_unsorted = map (\<lambda>(k, rs). section_table L k rs) secs"
    by blast
  have out_sorted: "output_text L False secs = Inr (join (NEWLINE @ NEWLINE) parts_sorted @ NEWLINE)"
    using names_sorted ps(1) by (simp add: output_text_def)
  have out_unsorted: "output_text L True secs = Inr (join (NEWLINE @ NEWLINE) parts_unsorted @ NEWLINE)"
    using names_unsorted pu(1) by (simp add: output_text_def)
  have "distinct (map fst ?ss)"
    using distinct_keys_distinct [OF dk] by (simp add: map_sort_key)
  moreover have "\<forall>e \<in> set ?ss. is_str (fst e)"
    using typed by auto
  moreover have "sorted (map (\<lambda>e. order_key (fst e)) ?ss)"
    by simp
  ultimately have alphabetical: "sorted_wrt (<) (map (\<lambda>(k, rs). the_str k) ?ss)"
    by (rule sorted_string_keys)
  have same: "mset ?ss = mset secs"
    by simp
  show ?thesis
    using built order same alphabetical out_sorted ps(2) out_unsorted pu(2) by blast
qed

lemma expected_three_sections:
  "expected_rows (ascii_builtins ld) three_sections_doc =
     [(YStr (lit ''B''), example_row (lit ''/b'')),
      (YStr (lit ''A''), example_row (lit ''/a'')),
      (YStr (lit ''B''), example_row (lit ''/c''))]"
  by (simp add: expected_rows_Cons three_sections_doc_def path_rows_Cons path_methods_def
      pair_row_def example_row_def eval_defs)

lemma build_three_sections:
  "build_rows (ascii_builtins ld) three_sections_doc =
     Inr ([(YStr (lit ''B''), [example_row (lit ''/b''), example_row (lit ''/c'')]),
           (YStr (lit ''A''), [example_row (lit ''/a'')])], [])"
  by (simp add: build_rows_def three_sections_doc_def example_row_def eval_defs)

theorem sections_ordered_witness:
  "list_all (\<lambda>(s, r). is_str s \<and> typed_row r)
     (expected_rows (ascii_builtins (\<lambda>s. None)) three_sections_doc)
   \<and> build_rows (ascii_builtins (\<lambda>s. None)) three_sections_doc =
       Inr ([(YStr (lit ''B''), [example_row (lit ''/b''), example_row (lit ''/c'')]),
             (YStr (lit ''A''), [example_row (lit ''/a'')])], [])
   \<and> encounter_order (map fst (expected_rows (ascii_builtins (\<lambda>s. None)) three_sections_doc)) =
       [YStr (lit ''B''), YStr (lit ''A'')]
   \<and> section_order False
        [(YStr (lit ''B''), [example_row (lit ''/b''), example_row (lit ''/c'')]),
         (YStr (lit ''A''), [example_row (lit ''/a'')])] =
       Inr [YStr (lit ''A''), YStr (lit ''B'')]"
proof -
  have valid: "list_all (\<lambda>(s, r). is_str s \<and> typed_row r)
      (expected_rows (ascii_builtins (\<lambda>s. None)) three_sections_doc)"
    by (simp add: expected_three_sections typed_row_def example_row_def)
  from sections_ordered [OF valid]
  obtain secs diags where
    built: "build_rows (ascii_builtins (\<lambda>s. None)) three_sections_doc = Inr (secs, diags)"
    and order: "map fst secs =
      encounter_order (map fst (expected_rows (ascii_builtins (\<lambda>s. None)) three_sections_doc))"
    by blast
  have secs: "secs = [(YStr (lit ''B''), [example_row (lit ''/b''), example_row (lit ''/c'')]),
                      (YStr (lit ''A''), [example_row (lit ''/a'')])]"
    using built by (simp add: build_three_sections)
  have sorted_names: "section_order False
        [(YStr (lit ''B''), [example_row (lit ''/b''), example_row (lit ''/c'')]),
         (YStr (lit ''A''), [example_row (lit ''/a'')])] =
       Inr [YStr (lit ''A''), YStr (lit ''B'')]"
    by (simp add: section_order_def py_sorted_names_def lit_def less_eq_prod_def)
  show ?thesis
    using valid order [symmetric] sorted_names by (simp add: build_three_sections secs)
qed

end
